theory Spec2Isabelle
  imports Main
begin

section \<open>JavaScript values\<close>

text \<open>
  The provider's responses are JSON documents and TypeScript's types are erased at run
  time, so the client is modelled over untyped JavaScript values. A number is an IEEE 754
  double: \<open>NaN\<close>, an infinity (\<open>JInf True\<close> is the negative one), the negative zero, an
  integer (\<open>JNum 0\<close> is the positive zero), or a fraction \<open>m / 2^k\<close> in lowest terms
  (\<open>JFrac m k\<close> with \<open>m\<close> odd and \<open>k > 0\<close>); every double is exactly one of these.
  Strings are ASCII. \<open>JObj\<close> holds the own properties of an object, each key once; as in any value parsed
  from JSON none of them is a function, and none is taken to be named \<open>toString\<close> or
  \<open>valueOf\<close>, so that an object converts to the string \<open>[object Object]\<close>.
\<close>

datatype jsval =
    JUndefined
  | JNull
  | JBool bool
  | JNaN
  | JInf bool
  | JNegZero
  | JNum int
  | JFrac int nat
  | JStr string
  | JArr "jsval list"
  | JObj "(string \<times> jsval) list"

text \<open>What a \<open>throw\<close> carries: the constructor names the error class, the string is its
  \<open>message\<close>.\<close>

datatype error = Error string | TypeError string | SyntaxError string

fun message :: "error \<Rightarrow> string" where
  "message (Error m) = m"
| "message (TypeError m) = m"
| "message (SyntaxError m) = m"

text \<open>Truthiness, as \<open>!x\<close>, \<open>x || y\<close> and \<open>if (x)\<close> read it.\<close>

fun truthy :: "jsval \<Rightarrow> bool" where
  "truthy JUndefined = False"
| "truthy JNull = False"
| "truthy (JBool b) = b"
| "truthy JNaN = False"
| "truthy (JInf neg) = True"
| "truthy JNegZero = False"
| "truthy (JNum n) = (n \<noteq> 0)"
| "truthy (JFrac m k) = (m \<noteq> 0)"
| "truthy (JStr s) = (s \<noteq> [])"
| "truthy (JArr xs) = True"
| "truthy (JObj kvs) = True"

text \<open>\<open>a || b\<close> on values that are already evaluated.\<close>

definition js_or :: "jsval \<Rightarrow> jsval \<Rightarrow> jsval" where
  "js_or a b = (if truthy a then a else b)"

text \<open>The decimal digits of a natural number and of an integer.\<close>

definition digit_char :: "nat \<Rightarrow> char" where
  "digit_char d = ''0123456789'' ! d"

function string_of_nat :: "nat \<Rightarrow> string" where
  "string_of_nat n =
     (if n < 10 then [digit_char n] else string_of_nat (n div 10) @ [digit_char (n mod 10)])"
  by pat_completeness auto
termination
  by (relation "measure id") auto

declare string_of_nat.simps [simp del]

definition string_of_int :: "int \<Rightarrow> string" where
  "string_of_int i = (if i < 0 then CHR ''-'' # string_of_nat (nat (- i)) else string_of_nat (nat i))"

text \<open>Arithmetic on doubles is exact arithmetic on fractions followed by rounding to
  the nearest double, ties to the even mantissa. \<open>floor_log2 p q\<close> is the integer part of
  the binary logarithm of \<open>p / q\<close>.\<close>

function bit_length :: "nat \<Rightarrow> nat" where
  "bit_length n = (if n = 0 then 0 else Suc (bit_length (n div 2)))"
  by pat_completeness auto
termination
  by (relation "measure id") auto

declare bit_length.simps [simp del]

definition floor_log2 :: "nat \<Rightarrow> nat \<Rightarrow> int" where
  "floor_log2 p q =
     (let l = int (bit_length p) - int (bit_length q)
      in if q * 2 ^ nat l \<le> p * 2 ^ nat (- l) then l else l - 1)"

text \<open>The integer nearest to \<open>a / b\<close>, the even one of two that are equally near.\<close>

definition round_half_even :: "nat \<Rightarrow> nat \<Rightarrow> nat" where
  "round_half_even a b =
     (let t = a div b; r = a mod b
      in if b < 2 * r \<or> (2 * r = b \<and> odd t) then t + 1 else t)"

text \<open>\<open>m / 2^k\<close> in lowest terms.\<close>

function reduce_dyadic :: "nat \<Rightarrow> nat \<Rightarrow> nat \<times> nat" where
  "reduce_dyadic m k = (if k = 0 \<or> odd m then (m, k) else reduce_dyadic (m div 2) (k - 1))"
  by pat_completeness auto
termination
  by (relation "measure snd") auto

declare reduce_dyadic.simps [simp del]

definition signed_zero :: "bool \<Rightarrow> jsval" where
  "signed_zero neg = (if neg then JNegZero else JNum 0)"

definition with_sign :: "bool \<Rightarrow> nat \<Rightarrow> int" where
  "with_sign neg m = (if neg then - int m else int m)"

text \<open>The double nearest to \<open>p / q\<close>, negated when \<open>neg\<close> holds. A double has a mantissa
  of 53 bits and its last bit is worth at least \<open>2^-1074\<close>; what rounds to \<open>2^1024\<close> or
  beyond is an infinity, what rounds to nothing is a zero of the same sign.\<close>

definition to_double :: "bool \<Rightarrow> nat \<Rightarrow> nat \<Rightarrow> jsval" where
  "to_double neg p q =
     (if p = 0 then signed_zero neg
      else if 1024 \<le> floor_log2 p q then JInf neg
      else
        (let x = max (floor_log2 p q - 52) (- 1074);
             mant = (if 0 \<le> x then round_half_even p (q * 2 ^ nat x)
                     else round_half_even (p * 2 ^ nat (- x)) q)
         in if mant = 0 then signed_zero neg
            else if 0 \<le> x then
              (if (2::nat) ^ 1024 \<le> mant * 2 ^ nat x then JInf neg
               else JNum (with_sign neg (mant * 2 ^ nat x)))
            else
              (case reduce_dyadic mant (nat (- x)) of
                 (m, k) \<Rightarrow> if k = 0 then JNum (with_sign neg m) else JFrac (with_sign neg m) k)))"

text \<open>The magnitude of a finite number as a fraction, and the sign bit of a number.\<close>

fun magnitude :: "jsval \<Rightarrow> (nat \<times> nat) option" where
  "magnitude (JNum n) = Some (nat \<bar>n\<bar>, 1)"
| "magnitude JNegZero = Some (0, 1)"
| "magnitude (JFrac m k) = Some (nat \<bar>m\<bar>, 2 ^ k)"
| "magnitude v = None"

fun negative :: "jsval \<Rightarrow> bool" where
  "negative (JNum n) = (n < 0)"
| "negative JNegZero = True"
| "negative (JFrac m k) = (m < 0)"
| "negative (JInf neg) = neg"
| "negative v = False"

text \<open>\<open>x * y\<close> on numbers: the sign is the exclusive or of the signs, an infinity times
  a zero is \<open>NaN\<close>, and so is any product with \<open>NaN\<close>.\<close>

definition times_numbers :: "jsval \<Rightarrow> jsval \<Rightarrow> jsval" where
  "times_numbers x y =
     (let neg = (negative x \<noteq> negative y)
      in case (magnitude x, magnitude y) of
           (Some (p, q), Some (p', q')) \<Rightarrow> to_double neg (p * p') (q * q')
         | (Some (p, q), None) \<Rightarrow>
             (case y of JInf b \<Rightarrow> if p = 0 then JNaN else JInf neg | _ \<Rightarrow> JNaN)
         | (None, Some (p', q')) \<Rightarrow>
             (case x of JInf b \<Rightarrow> if p' = 0 then JNaN else JInf neg | _ \<Rightarrow> JNaN)
         | (None, None) \<Rightarrow>
             (case (x, y) of (JInf b, JInf b') \<Rightarrow> JInf neg | _ \<Rightarrow> JNaN))"

text \<open>Decimal rendering of a number, as a template literal prints it: the fewest
  digits \<open>s\<close> such that \<open>s \<times> 10^j\<close> still rounds to the number, of two such the nearer
  one, laid out in positional notation when the decimal point falls within 21 digits
  before or 6 zeros after it, and in exponent notation otherwise.
  \<open>decimal_exponent p q\<close> is the \<open>n\<close> with \<open>10^(n-1) \<le> p / q < 10^n\<close>; \<open>decimal s j\<close> is
  \<open>s \<times> 10^j\<close> as a fraction. Seventeen digits tell any two doubles apart.\<close>

definition decimal_exponent :: "nat \<Rightarrow> nat \<Rightarrow> int" where
  "decimal_exponent p q =
     (let d = int (length (string_of_nat p)) - int (length (string_of_nat q))
      in if q * 10 ^ nat d \<le> p * 10 ^ nat (- d) then d + 1 else d)"

definition decimal :: "nat \<Rightarrow> int \<Rightarrow> nat \<times> nat" where
  "decimal s j = (if 0 \<le> j then (s * 10 ^ nat j, 1) else (s, 10 ^ nat (- j)))"

definition rounds_to :: "jsval \<Rightarrow> nat \<Rightarrow> int \<Rightarrow> bool" where
  "rounds_to v s j = (case decimal s j of (a, b) \<Rightarrow> to_double False a b = v)"

fun shortest_decimal :: "jsval \<Rightarrow> nat \<Rightarrow> nat \<Rightarrow> int \<Rightarrow> nat \<Rightarrow> nat \<Rightarrow> nat \<times> int" where
  "shortest_decimal v p q n k 0 =
     (case decimal 1 (int k - n) of (a, b) \<Rightarrow> (round_half_even (p * a) (q * b), n - int k))"
| "shortest_decimal v p q n k (Suc fuel) =
     (case decimal 1 (int k - n) of
        (a, b) \<Rightarrow>
          (let lo = (p * a) div (q * b);
               r = (p * a) mod (q * b);
               ok_lo = rounds_to v lo (n - int k);
               ok_hi = rounds_to v (lo + 1) (n - int k)
           in if ok_lo \<and> ok_hi then
                (if 2 * r < q * b \<or> (2 * r = q * b \<and> even lo) then (lo, n - int k)
                 else (lo + 1, n - int k))
              else if ok_lo then (lo, n - int k)
              else if ok_hi then (lo + 1, n - int k)
              else shortest_decimal v p q n (Suc k) fuel))"

function strip_zeros :: "nat \<Rightarrow> int \<Rightarrow> nat \<times> int" where
  "strip_zeros s j = (if s = 0 \<or> s mod 10 \<noteq> 0 then (s, j) else strip_zeros (s div 10) (j + 1))"
  by pat_completeness auto
termination
  by (relation "measure fst") auto

declare strip_zeros.simps [simp del]

definition format_decimal :: "nat \<Rightarrow> int \<Rightarrow> string" where
  "format_decimal s j =
     (let ds = string_of_nat s; k = int (length ds); n = k + j
      in if k \<le> n \<and> n \<le> 21 then ds @ replicate (nat (n - k)) CHR ''0''
         else if 0 < n \<and> n \<le> 21 then take (nat n) ds @ ''.'' @ drop (nat n) ds
         else if - 6 < n \<and> n \<le> 0 then ''0.'' @ replicate (nat (- n)) CHR ''0'' @ ds
         else (if k = 1 then ds else take 1 ds @ ''.'' @ drop 1 ds)
              @ ''e'' @ (if n - 1 < 0 then ''-'' else ''+'') @ string_of_nat (nat \<bar>n - 1\<bar>))"

definition number_to_string :: "jsval \<Rightarrow> string" where
  "number_to_string v =
     (case magnitude v of
        None \<Rightarrow> (case v of JInf neg \<Rightarrow> if neg then ''-Infinity'' else ''Infinity'' | _ \<Rightarrow> ''NaN'')
      | Some (p, q) \<Rightarrow>
          if p = 0 then ''0''
          else (if negative v then ''-'' else [])
               @ (case shortest_decimal (to_double False p q) p q (decimal_exponent p q) 1 17 of
                    (s, j) \<Rightarrow> (case strip_zeros s j of (s', j') \<Rightarrow> format_decimal s' j')))"

fun join_with :: "string \<Rightarrow> string list \<Rightarrow> string" where
  "join_with sep [] = []"
| "join_with sep [x] = x"
| "join_with sep (x # y # ys) = x @ sep @ join_with sep (y # ys)"

text \<open>\<open>String(v)\<close>, the conversion of template literals and of \<open>new Error(v)\<close>. An
  integer of magnitude up to \<open>2^53\<close> is its own shortest decimal and prints digit by
  digit. An array prints its elements separated by commas, \<open>null\<close> and \<open>undefined\<close>
  elements as nothing.\<close>

fun js_to_string :: "jsval \<Rightarrow> string" where
  "js_to_string JUndefined = ''undefined''"
| "js_to_string JNull = ''null''"
| "js_to_string (JBool b) = (if b then ''true'' else ''false'')"
| "js_to_string JNaN = ''NaN''"
| "js_to_string (JInf neg) = number_to_string (JInf neg)"
| "js_to_string JNegZero = ''0''"
| "js_to_string (JNum n) =
     (if \<bar>n\<bar> \<le> 9007199254740992 then string_of_int n else number_to_string (JNum n))"
| "js_to_string (JFrac m k) = number_to_string (JFrac m k)"
| "js_to_string (JStr s) = s"
| "js_to_string (JArr xs) =
     join_with '','' (map (\<lambda>x. if x = JUndefined \<or> x = JNull then [] else js_to_string x) xs)"
| "js_to_string (JObj kvs) = ''[object Object]''"

text \<open>Reading a property \<open>v.k\<close>. On \<open>null\<close> and \<open>undefined\<close> it throws; an object gives
  its own property or \<open>undefined\<close>; arrays and strings have \<open>length\<close>. The keys the
  client reads are never inherited ones.\<close>

definition cannot_read :: "jsval \<Rightarrow> string \<Rightarrow> error" where
  "cannot_read v k =
     TypeError (''Cannot read properties of '' @ js_to_string v @ '' (reading '' @ [CHR 0x27] @ k @ [CHR 0x27] @ '')'')"

fun js_get :: "jsval \<Rightarrow> string \<Rightarrow> error + jsval" where
  "js_get JUndefined k = Inl (cannot_read JUndefined k)"
| "js_get JNull k = Inl (cannot_read JNull k)"
| "js_get (JObj kvs) k = Inr (case map_of kvs k of None \<Rightarrow> JUndefined | Some x \<Rightarrow> x)"
| "js_get (JArr xs) k = Inr (if k = ''length'' then JNum (int (length xs)) else JUndefined)"
| "js_get (JStr s) k = Inr (if k = ''length'' then JNum (int (length s)) else JUndefined)"
| "js_get v k = Inr JUndefined"

text \<open>Optional chaining \<open>v?.k\<close>.\<close>

definition js_get_opt :: "jsval \<Rightarrow> string \<Rightarrow> jsval" where
  "js_get_opt v k = (case js_get v k of Inl e \<Rightarrow> JUndefined | Inr x \<Rightarrow> x)"

text \<open>\<open>v[0]\<close>.\<close>

fun js_first :: "jsval \<Rightarrow> error + jsval" where
  "js_first JUndefined = Inl (cannot_read JUndefined ''0'')"
| "js_first JNull = Inl (cannot_read JNull ''0'')"
| "js_first (JArr xs) = Inr (case xs of [] \<Rightarrow> JUndefined | x # rest \<Rightarrow> x)"
| "js_first (JStr s) = Inr (case s of [] \<Rightarrow> JUndefined | c # rest \<Rightarrow> JStr [c])"
| "js_first (JObj kvs) = Inr (case map_of kvs ''0'' of None \<Rightarrow> JUndefined | Some x \<Rightarrow> x)"
| "js_first v = Inr JUndefined"

text \<open>Sequencing of computations that may throw.\<close>

definition bind_result :: "error + 'a \<Rightarrow> ('a \<Rightarrow> error + 'b) \<Rightarrow> error + 'b" where
  "bind_result m f = (case m of Inl e \<Rightarrow> Inl e | Inr x \<Rightarrow> f x)"

fun map_result :: "('a \<Rightarrow> error + 'b) \<Rightarrow> 'a list \<Rightarrow> error + 'b list" where
  "map_result f [] = Inr []"
| "map_result f (x # xs) =
     (case f x of
        Inl e \<Rightarrow> Inl e
      | Inr y \<Rightarrow> (case map_result f xs of Inl e \<Rightarrow> Inl e | Inr ys \<Rightarrow> Inr (y # ys)))"

definition not_a_function :: "string \<Rightarrow> error" where
  "not_a_function callee = TypeError (callee @ '' is not a function'')"

text \<open>\<open>v.slice(b, e)\<close> for \<open>0 \<le> b \<le> e\<close>: arrays and strings have the method, JSON data
  holds no function of its own.\<close>

fun js_slice :: "string \<Rightarrow> jsval \<Rightarrow> nat \<Rightarrow> nat \<Rightarrow> error + jsval" where
  "js_slice callee JUndefined b e = Inl (cannot_read JUndefined ''slice'')"
| "js_slice callee JNull b e = Inl (cannot_read JNull ''slice'')"
| "js_slice callee (JArr xs) b e = Inr (JArr (take (e - b) (drop b xs)))"
| "js_slice callee (JStr s) b e = Inr (JStr (take (e - b) (drop b s)))"
| "js_slice callee v b e = Inl (not_a_function callee)"

text \<open>\<open>v.map(f)\<close>, where the callback may throw.\<close>

fun js_map :: "string \<Rightarrow> (jsval \<Rightarrow> error + jsval) \<Rightarrow> jsval \<Rightarrow> error + jsval" where
  "js_map callee f JUndefined = Inl (cannot_read JUndefined ''map'')"
| "js_map callee f JNull = Inl (cannot_read JNull ''map'')"
| "js_map callee f (JArr xs) =
     (case map_result f xs of Inl e \<Rightarrow> Inl e | Inr ys \<Rightarrow> Inr (JArr ys))"
| "js_map callee f v = Inl (not_a_function callee)"

text \<open>\<open>a * b\<close>. Both operands are converted to numbers first; the conversion of a
  string to the number it spells is the parameter \<open>strnum\<close>, and arrays and objects
  convert through their string. The product of two numbers is the double nearest to the
  exact product.\<close>

fun js_to_number :: "(string \<Rightarrow> jsval) \<Rightarrow> jsval \<Rightarrow> jsval" where
  "js_to_number strnum JUndefined = JNaN"
| "js_to_number strnum JNull = JNum 0"
| "js_to_number strnum (JBool b) = JNum (if b then 1 else 0)"
| "js_to_number strnum JNaN = JNaN"
| "js_to_number strnum (JInf neg) = JInf neg"
| "js_to_number strnum JNegZero = JNegZero"
| "js_to_number strnum (JNum n) = JNum n"
| "js_to_number strnum (JFrac m k) = JFrac m k"
| "js_to_number strnum (JStr s) = strnum s"
| "js_to_number strnum (JArr xs) = strnum (js_to_string (JArr xs))"
| "js_to_number strnum (JObj kvs) = strnum (js_to_string (JObj kvs))"

definition js_times :: "(string \<Rightarrow> jsval) \<Rightarrow> jsval \<Rightarrow> jsval \<Rightarrow> jsval" where
  "js_times strnum a b = times_numbers (js_to_number strnum a) (js_to_number strnum b)"

text \<open>The serialisation of \<open>URLSearchParams\<close>: letters, digits and \<open>*-._\<close> stand for
  themselves, a space becomes \<open>+\<close>, every other byte is percent-encoded.\<close>

definition hex_digit :: "nat \<Rightarrow> char" where
  "hex_digit d = ''0123456789ABCDEF'' ! d"

definition percent_byte :: "char \<Rightarrow> string" where
  "percent_byte c =
     [CHR ''%'', hex_digit ((of_char c :: nat) div 16), hex_digit ((of_char c :: nat) mod 16)]"

definition alphanumeric :: "char \<Rightarrow> bool" where
  "alphanumeric c =
     (c \<in> set ''abcdefghijklmnopqrstuvwxyzABCDEFGHIJKLMNOPQRSTUVWXYZ0123456789'')"

definition form_urlencode :: "string \<Rightarrow> string" where
  "form_urlencode s =
     concat (map (\<lambda>c. if c = CHR '' '' then ''+''
                       else if alphanumeric c \<or> c \<in> set ''*-._'' then [c]
                       else percent_byte c) s)"

definition query_toString :: "(string \<times> string) list \<Rightarrow> string" where
  "query_toString q =
     join_with ''&'' (map (\<lambda>(k, v). form_urlencode k @ ''='' @ form_urlencode v) q)"

text \<open>\<open>parseInt(s)\<close> without a radix: leading white space, a sign, a \<open>0x\<close> prefix for
  base 16, then the longest run of digits, read as the double nearest to the integer
  they spell; \<open>NaN\<close> when there is none.\<close>

definition is_space :: "char \<Rightarrow> bool" where
  "is_space c = (c \<in> set [CHR 0x09, CHR 0x0A, CHR 0x0B, CHR 0x0C, CHR 0x0D, CHR '' ''])"

definition digit_value :: "nat \<Rightarrow> char \<Rightarrow> nat option" where
  "digit_value radix c =
     (case map_of
             [(CHR ''0'', 0), (CHR ''1'', 1), (CHR ''2'', 2), (CHR ''3'', 3), (CHR ''4'', 4),
              (CHR ''5'', 5), (CHR ''6'', 6), (CHR ''7'', 7), (CHR ''8'', 8), (CHR ''9'', 9),
              (CHR ''a'', 10), (CHR ''b'', 11), (CHR ''c'', 12), (CHR ''d'', 13),
              (CHR ''e'', 14), (CHR ''f'', 15), (CHR ''A'', 10), (CHR ''B'', 11),
              (CHR ''C'', 12), (CHR ''D'', 13), (CHR ''E'', 14), (CHR ''F'', 15)] c of
        None \<Rightarrow> None
      | Some d \<Rightarrow> if d < radix then Some d else None)"

definition parseInt :: "string \<Rightarrow> jsval" where
  "parseInt str =
     (let s = dropWhile is_space str;
          minus = (take 1 s = ''-'');
          s1 = (if take 1 s = ''-'' \<or> take 1 s = ''+'' then drop 1 s else s);
          hex = (take 2 s1 = ''0x'' \<or> take 2 s1 = ''0X'');
          radix = (if hex then 16 else 10);
          s2 = (if hex then drop 2 s1 else s1);
          z = takeWhile (\<lambda>c. digit_value radix c \<noteq> None) s2;
          n = foldl (\<lambda>a c. a * radix + (case digit_value radix c of None \<Rightarrow> 0 | Some d \<Rightarrow> d)) 0 z
      in if z = [] then JNaN else to_double minus n 1)"

text \<open>One property of \<open>const {k, ...} = v\<close>.\<close>

definition js_destructure :: "string \<Rightarrow> jsval \<Rightarrow> string \<Rightarrow> error + jsval" where
  "js_destructure src v k =
     (if v = JUndefined \<or> v = JNull
      then Inl (TypeError (''Cannot destructure property '' @ [CHR 0x27] @ k @ [CHR 0x27]
                  @ '' of '' @ [CHR 0x27] @ src @ [CHR 0x27] @ '' as it is '' @ js_to_string v @ ''.''))
      else js_get v k)"

section \<open>The network\<close>

text \<open>
  A request as \<open>fetch\<close> receives it. \<open>http_method\<close> is \<open>options.method\<close> (absent means
  GET), \<open>body\<close> is the value handed to \<open>JSON.stringify\<close>. The provider is a function of
  the requests issued so far, the last one being the request it answers; the log of
  issued requests is the state every client function threads.
\<close>

record request =
  url :: string
  http_method :: "string option"
  headers :: "string \<rightharpoonup> string"
  body :: "jsval option"

text \<open>\<open>payload\<close> is what \<open>response.json()\<close> gives: \<open>Inl m\<close> when the body is not JSON and
  the call rejects with a syntax error of message \<open>m\<close>.\<close>

record response =
  status :: nat
  payload :: "string + jsval"

datatype fetch_result = Rejected string | Resp response

type_synonym server = "request list \<Rightarrow> fetch_result"

definition fetch :: "server \<Rightarrow> request \<Rightarrow> request list \<Rightarrow> fetch_result \<times> request list" where
  "fetch srv req log = (srv (log @ [req]), log @ [req])"

definition response_ok :: "response \<Rightarrow> bool" where
  "response_ok r = (200 \<le> status r \<and> status r \<le> 299)"

text \<open>\<open>RequestInit\<close>, the second argument of \<open>printfulRequest\<close>.\<close>

record request_init =
  opt_method :: "string option"
  opt_body :: "jsval option"
  opt_headers :: "(string \<rightharpoonup> string) option"

definition no_options :: request_init where
  "no_options = \<lparr>opt_method = None, opt_body = None, opt_headers = None\<rparr>"

definition post_json :: "jsval \<Rightarrow> request_init" where
  "post_json b = \<lparr>opt_method = Some ''POST'', opt_body = Some b, opt_headers = None\<rparr>"

text \<open>\<open>process.env\<close>, as far as the client reads it.\<close>

record process_env =
  env_PRINTFUL_API_KEY :: "string option"
  env_PRINTFUL_STORE_ID :: "string option"

definition PRINTFUL_API_URL :: string where
  "PRINTFUL_API_URL = ''https://api.printful.com''"

definition PRINTFUL_STORE_ID :: "process_env \<Rightarrow> string" where
  "PRINTFUL_STORE_ID env =
     (case env_PRINTFUL_STORE_ID env of
        None \<Rightarrow> ''16513682''
      | Some s \<Rightarrow> if s = [] then ''16513682'' else s)"

text \<open>The arguments of the \<open>fetch\<close> call in \<open>printfulRequest\<close>: the options as given,
  with the headers of \<open>getHeaders\<close> overridden by those of the options.\<close>

definition fetch_args :: "(string \<rightharpoonup> string) \<Rightarrow> string \<Rightarrow> request_init \<Rightarrow> request" where
  "fetch_args h endpoint options =
     \<lparr>url = PRINTFUL_API_URL @ endpoint,
      http_method = opt_method options,
      headers = h ++ (case opt_headers options of None \<Rightarrow> Map.empty | Some oh \<Rightarrow> oh),
      body = opt_body options\<rparr>"

definition not_configured :: error where
  "not_configured = Error ''PRINTFUL_API_KEY not configured''"

section \<open>The original client\<close>

definition getHeaders_orig :: "process_env \<Rightarrow> error + (string \<rightharpoonup> string)" where
  "getHeaders_orig env =
     (case env_PRINTFUL_API_KEY env of
        None \<Rightarrow> Inl not_configured
      | Some k \<Rightarrow>
          if k = [] then Inl not_configured
          else Inr [''Authorization'' \<mapsto> ''Bearer '' @ k,
                    ''Content-Type'' \<mapsto> ''application/json''])"

text \<open>\<open>printfulRequest\<close> from the point where \<open>fetch\<close> has settled: a rejected
  \<open>fetch\<close> propagates; a response that is not \<open>ok\<close> throws with the envelope's \<open>result\<close>
  (an unreadable body counts as \<open>{}\<close>), any other response yields \<open>data.result\<close>.\<close>

definition unwrap_orig :: "fetch_result \<Rightarrow> error + jsval" where
  "unwrap_orig fr =
     (case fr of
        Rejected m \<Rightarrow> Inl (TypeError m)
      | Resp r \<Rightarrow>
          if \<not> response_ok r then
            (case js_get (case payload r of Inl m \<Rightarrow> JObj [] | Inr d \<Rightarrow> d) ''result'' of
               Inl e \<Rightarrow> Inl e
             | Inr res \<Rightarrow>
                 Inl (Error (js_to_string
                   (js_or res (JStr (''Printful API error: '' @ string_of_nat (status r)))))))
          else
            (case payload r of
               Inl m \<Rightarrow> Inl (SyntaxError m)
             | Inr data \<Rightarrow> js_get data ''result''))"

definition printfulRequest_orig ::
  "process_env \<Rightarrow> server \<Rightarrow> string \<Rightarrow> request_init \<Rightarrow> request list
     \<Rightarrow> (error + jsval) \<times> request list" where
  "printfulRequest_orig env srv endpoint options log =
     (case getHeaders_orig env of
        Inl e \<Rightarrow> (Inl e, log)
      | Inr h \<Rightarrow>
          (case fetch srv (fetch_args h endpoint options) log of
             (fr, log') \<Rightarrow> (unwrap_orig fr, log')))"

definition getCatalog_orig ::
  "process_env \<Rightarrow> server \<Rightarrow> request list \<Rightarrow> (error + jsval) \<times> request list" where
  "getCatalog_orig env srv log = printfulRequest_orig env srv ''/products'' no_options log"

definition getProduct_orig ::
  "process_env \<Rightarrow> server \<Rightarrow> jsval \<Rightarrow> request list \<Rightarrow> (error + jsval) \<times> request list" where
  "getProduct_orig env srv productId log =
     printfulRequest_orig env srv (''/products/'' @ js_to_string productId) no_options log"

definition createSyncProduct_orig ::
  "process_env \<Rightarrow> server \<Rightarrow> jsval \<Rightarrow> jsval \<Rightarrow> jsval \<Rightarrow> request list
     \<Rightarrow> (error + jsval) \<times> request list" where
  "createSyncProduct_orig env srv name thumbnail variants log =
     printfulRequest_orig env srv ''/sync/products''
       (post_json (JObj [(''sync_product'', JObj [(''name'', name), (''thumbnail'', thumbnail)]),
                         (''sync_variants'', variants)])) log"

definition createMockup_orig ::
  "process_env \<Rightarrow> server \<Rightarrow> jsval \<Rightarrow> jsval \<Rightarrow> jsval \<Rightarrow> request list
     \<Rightarrow> (error + jsval) \<times> request list" where
  "createMockup_orig env srv productId variantIds files log =
     printfulRequest_orig env srv (''/mockup-generator/create-task/'' @ js_to_string productId)
       (post_json (JObj [(''variant_ids'', variantIds), (''files'', files)])) log"

definition getMockupResult_orig ::
  "process_env \<Rightarrow> server \<Rightarrow> string \<Rightarrow> request list \<Rightarrow> (error + jsval) \<times> request list" where
  "getMockupResult_orig env srv taskKey log =
     printfulRequest_orig env srv (''/mockup-generator/task?task_key='' @ taskKey) no_options log"

definition getShippingRates_orig ::
  "process_env \<Rightarrow> server \<Rightarrow> jsval \<Rightarrow> request list \<Rightarrow> (error + jsval) \<times> request list" where
  "getShippingRates_orig env srv params log =
     printfulRequest_orig env srv ''/shipping/rates'' (post_json params) log"

definition createOrder_orig ::
  "process_env \<Rightarrow> server \<Rightarrow> jsval \<Rightarrow> request list \<Rightarrow> (error + jsval) \<times> request list" where
  "createOrder_orig env srv params log =
     printfulRequest_orig env srv ''/orders'' (post_json params) log"

definition getOrder_orig ::
  "process_env \<Rightarrow> server \<Rightarrow> string \<Rightarrow> request list \<Rightarrow> (error + jsval) \<times> request list" where
  "getOrder_orig env srv orderId log =
     printfulRequest_orig env srv (''/orders/'' @ orderId) no_options log"

text \<open>The optional \<open>params\<close> of \<open>listOrders\<close>; a field that is absent, or \<open>params\<close> itself
  absent, is \<open>None\<close>.\<close>

record list_params =
  lp_status :: "string option"
  lp_offset :: "int option"
  lp_limit :: "int option"

definition listOrders_orig ::
  "process_env \<Rightarrow> server \<Rightarrow> list_params \<Rightarrow> request list \<Rightarrow> (error + jsval) \<times> request list" where
  "listOrders_orig env srv params log =
     (let query =
            (case lp_status params of
               None \<Rightarrow> []
             | Some st \<Rightarrow> if st = [] then [] else [(''status'', st)])
          @ (case lp_offset params of
               None \<Rightarrow> []
             | Some off \<Rightarrow> if off = 0 then [] else [(''offset'', js_to_string (JNum off))])
          @ (case lp_limit params of
               None \<Rightarrow> []
             | Some lim \<Rightarrow> if lim = 0 then [] else [(''limit'', js_to_string (JNum lim))]);
          queryString = query_toString query
      in printfulRequest_orig env srv
           (''/orders'' @ (if queryString \<noteq> [] then ''?'' @ queryString else [])) no_options log)"

definition cancelOrder_orig ::
  "process_env \<Rightarrow> server \<Rightarrow> string \<Rightarrow> request list \<Rightarrow> (error + jsval) \<times> request list" where
  "cancelOrder_orig env srv orderId log =
     (case printfulRequest_orig env srv (''/orders/'' @ orderId)
             \<lparr>opt_method = Some ''DELETE'', opt_body = None, opt_headers = None\<rparr> log of
        (Inl e, log') \<Rightarrow> (Inl e, log')
      | (Inr r, log') \<Rightarrow> (Inr JUndefined, log'))"

definition getStoreInfo_orig ::
  "process_env \<Rightarrow> server \<Rightarrow> request list \<Rightarrow> (error + jsval) \<times> request list" where
  "getStoreInfo_orig env srv log = printfulRequest_orig env srv ''/stores'' no_options log"

definition estimateCosts_orig ::
  "process_env \<Rightarrow> server \<Rightarrow> jsval \<Rightarrow> request list \<Rightarrow> (error + jsval) \<times> request list" where
  "estimateCosts_orig env srv params log =
     printfulRequest_orig env srv ''/orders/estimate-costs'' (post_json params) log"

datatype product_type = tShirt | hoodie | mug | poster | phoneCase | toteBag | sticker | canvas

fun POPULAR_PRODUCTS :: "product_type \<Rightarrow> int" where
  "POPULAR_PRODUCTS tShirt = 71"
| "POPULAR_PRODUCTS hoodie = 380"
| "POPULAR_PRODUCTS mug = 19"
| "POPULAR_PRODUCTS poster = 1"
| "POPULAR_PRODUCTS phoneCase = 195"
| "POPULAR_PRODUCTS toteBag = 84"
| "POPULAR_PRODUCTS sticker = 358"
| "POPULAR_PRODUCTS canvas = 2"

text \<open>The argument of \<open>quickCreateProduct\<close>; \<open>retailMarkup\<close> is \<open>JUndefined\<close> when the
  caller leaves it out.\<close>

record quick_params =
  qp_name :: string
  designUrl :: string
  productType :: product_type
  retailMarkup :: jsval

definition design_file :: "string \<Rightarrow> jsval" where
  "design_file u = JObj [(''type'', JStr ''default''), (''url'', JStr u)]"

definition sync_variant :: "(string \<Rightarrow> jsval) \<Rightarrow> string \<Rightarrow> jsval \<Rightarrow> jsval \<Rightarrow> error + jsval" where
  "sync_variant strnum u markup v =
     bind_result (js_get v ''id'') (\<lambda>vid.
     bind_result (js_get v ''price'') (\<lambda>price.
       Inr (JObj [(''variant_id'', vid),
                  (''retail_price'', js_times strnum price markup),
                  (''files'', JArr [design_file u])])))"

definition quickCreateProduct_orig ::
  "(string \<Rightarrow> jsval) \<Rightarrow> process_env \<Rightarrow> server \<Rightarrow> quick_params \<Rightarrow> request list
     \<Rightarrow> (error + jsval) \<times> request list" where
  "quickCreateProduct_orig strnum env srv params log =
     (let productId = JNum (POPULAR_PRODUCTS (productType params));
          markup = js_or (retailMarkup params) (JNum 2)
      in case getProduct_orig env srv productId log of
           (Inl e, log1) \<Rightarrow> (Inl e, log1)
         | (Inr product, log1) \<Rightarrow>
             (case bind_result (js_get product ''variants'')
                     (\<lambda>vs. js_slice ''product.variants.slice'' vs 0 5) of
                Inl e \<Rightarrow> (Inl e, log1)
              | Inr baseVariants \<Rightarrow>
                  (case js_map ''baseVariants.map''
                          (sync_variant strnum (designUrl params) markup) baseVariants of
                     Inl e \<Rightarrow> (Inl e, log1)
                   | Inr variants \<Rightarrow>
                       (case createSyncProduct_orig env srv (JStr (qp_name params))
                               (JStr (designUrl params)) variants log1 of
                          (Inl e, log2) \<Rightarrow> (Inl e, log2)
                        | (Inr syncProduct, log2) \<Rightarrow>
                            (case js_map ''baseVariants.map'' (\<lambda>v. js_get v ''id'') baseVariants of
                               Inl e \<Rightarrow> (Inl e, log2)
                             | Inr variantIds \<Rightarrow>
                                 (case createMockup_orig env srv productId variantIds
                                         (JArr [design_file (designUrl params)]) log2 of
                                    (Inl e, log3) \<Rightarrow> (Inl e, log3)
                                  | (Inr mockupTask, log3) \<Rightarrow>
                                      (bind_result (js_get syncProduct ''id'') (\<lambda>sid.
                                       bind_result (js_get mockupTask ''mockups'') (\<lambda>ms.
                                       bind_result
                                         (js_map ''mockupTask.mockups.map''
                                            (\<lambda>m. js_get m ''mockup_url'') ms) (\<lambda>urls.
                                         Inr (JObj [(''productId'', sid),
                                                    (''mockupUrls'', urls)])))),
                                       log3)))))))"

section \<open>The fixed client\<close>

definition getHeaders_fixed :: "process_env \<Rightarrow> error + (string \<rightharpoonup> string)" where
  "getHeaders_fixed env =
     (case env_PRINTFUL_API_KEY env of
        None \<Rightarrow> Inl not_configured
      | Some k \<Rightarrow>
          if k = [] then Inl not_configured
          else Inr [''Authorization'' \<mapsto> ''Bearer '' @ k,
                    ''Content-Type'' \<mapsto> ''application/json'',
                    ''X-PF-Store-Id'' \<mapsto> PRINTFUL_STORE_ID env])"

text \<open>\<open>printfulRequest\<close> from the point where \<open>fetch\<close> has settled: the body is parsed
  whatever the HTTP status, and the envelope's \<open>code\<close> decides.\<close>

definition unwrap_fixed :: "fetch_result \<Rightarrow> error + jsval" where
  "unwrap_fixed fr =
     (case fr of
        Rejected m \<Rightarrow> Inl (TypeError m)
      | Resp r \<Rightarrow>
          (case payload r of
             Inl m \<Rightarrow> Inl (SyntaxError m)
           | Inr data \<Rightarrow>
               (case js_get data ''code'' of
                  Inl e \<Rightarrow> Inl e
                | Inr code \<Rightarrow>
                    if code \<noteq> JNum 200 then
                      (case js_get data ''error'' of
                         Inl e \<Rightarrow> Inl e
                       | Inr err \<Rightarrow>
                           (case js_get data ''result'' of
                              Inl e \<Rightarrow> Inl e
                            | Inr res \<Rightarrow>
                                Inl (Error (js_to_string
                                  (js_or (js_get_opt err ''message'')
                                     (js_or res
                                        (JStr (''Printful API error: '' @ js_to_string code))))))))
                    else js_get data ''result'')))"

definition printfulRequest_fixed ::
  "process_env \<Rightarrow> server \<Rightarrow> string \<Rightarrow> request_init \<Rightarrow> request list
     \<Rightarrow> (error + jsval) \<times> request list" where
  "printfulRequest_fixed env srv endpoint options log =
     (case getHeaders_fixed env of
        Inl e \<Rightarrow> (Inl e, log)
      | Inr h \<Rightarrow>
          (case fetch srv (fetch_args h endpoint options) log of
             (fr, log') \<Rightarrow> (unwrap_fixed fr, log')))"

text \<open>\<open>getCatalog(limit = 20)\<close>: the default applies to an argument that is \<open>undefined\<close>.\<close>

definition getCatalog_fixed ::
  "process_env \<Rightarrow> server \<Rightarrow> jsval \<Rightarrow> request list \<Rightarrow> (error + jsval) \<times> request list" where
  "getCatalog_fixed env srv limit log =
     printfulRequest_fixed env srv
       (''/products?limit='' @ js_to_string (if limit = JUndefined then JNum 20 else limit))
       no_options log"

definition getProduct_fixed ::
  "process_env \<Rightarrow> server \<Rightarrow> jsval \<Rightarrow> request list \<Rightarrow> (error + jsval) \<times> request list" where
  "getProduct_fixed env srv productId log =
     printfulRequest_fixed env srv (''/products/'' @ js_to_string productId) no_options log"

definition getVariant_fixed ::
  "process_env \<Rightarrow> server \<Rightarrow> jsval \<Rightarrow> request list \<Rightarrow> (error + jsval) \<times> request list" where
  "getVariant_fixed env srv variantId log =
     printfulRequest_fixed env srv (''/products/variant/'' @ js_to_string variantId) no_options log"

definition getShippingRates_fixed ::
  "process_env \<Rightarrow> server \<Rightarrow> jsval \<Rightarrow> request list \<Rightarrow> (error + jsval) \<times> request list" where
  "getShippingRates_fixed env srv params log =
     printfulRequest_fixed env srv ''/shipping/rates'' (post_json params) log"

definition estimateCosts_fixed ::
  "process_env \<Rightarrow> server \<Rightarrow> jsval \<Rightarrow> request list \<Rightarrow> (error + jsval) \<times> request list" where
  "estimateCosts_fixed env srv params log =
     printfulRequest_fixed env srv ''/orders/estimate-costs'' (post_json params) log"

definition createMockupTask_fixed ::
  "process_env \<Rightarrow> server \<Rightarrow> jsval \<Rightarrow> jsval \<Rightarrow> jsval \<Rightarrow> request list
     \<Rightarrow> (error + jsval) \<times> request list" where
  "createMockupTask_fixed env srv productId variantIds files log =
     printfulRequest_fixed env srv (''/mockup-generator/create-task/'' @ js_to_string productId)
       (post_json (JObj [(''variant_ids'', variantIds), (''files'', files)])) log"

definition getMockupResult_fixed ::
  "process_env \<Rightarrow> server \<Rightarrow> string \<Rightarrow> request list \<Rightarrow> (error + jsval) \<times> request list" where
  "getMockupResult_fixed env srv taskKey log =
     printfulRequest_fixed env srv (''/mockup-generator/task?task_key='' @ taskKey) no_options log"

definition getStoreInfo_fixed ::
  "process_env \<Rightarrow> server \<Rightarrow> request list \<Rightarrow> (error + jsval) \<times> request list" where
  "getStoreInfo_fixed env srv log =
     (case printfulRequest_fixed env srv ''/stores'' no_options log of
        (Inl e, log') \<Rightarrow> (Inl e, log')
      | (Inr stores, log') \<Rightarrow> (js_first stores, log'))"

text \<open>\<open>createDraftOrder({recipient, items})\<close>: the body is the argument's two properties
  followed by \<open>confirm: false\<close>.\<close>

definition createDraftOrder_fixed ::
  "process_env \<Rightarrow> server \<Rightarrow> jsval \<Rightarrow> jsval \<Rightarrow> request list
     \<Rightarrow> (error + jsval) \<times> request list" where
  "createDraftOrder_fixed env srv recipient items log =
     printfulRequest_fixed env srv ''/orders''
       (post_json (JObj [(''recipient'', recipient), (''items'', items),
                         (''confirm'', JBool False)])) log"

text \<open>\<open>Object.values(POPULAR_PRODUCTS)\<close>, in the order the keys are written.\<close>

definition POPULAR_PRODUCTS_values :: "int list" where
  "POPULAR_PRODUCTS_values =
     map POPULAR_PRODUCTS [tShirt, hoodie, mug, poster, phoneCase, toteBag, sticker, canvas]"

text \<open>\<open>ids.map(id => getProduct(id).catch(() => null))\<close> under \<open>Promise.all\<close>: every call
  is started, in the order of the list, and a rejected one yields \<open>null\<close>.\<close>

fun getProducts_caught ::
  "process_env \<Rightarrow> server \<Rightarrow> int list \<Rightarrow> request list \<Rightarrow> jsval list \<times> request list" where
  "getProducts_caught env srv [] log = ([], log)"
| "getProducts_caught env srv (i # ids) log =
     (case getProduct_fixed env srv (JNum i) log of
        (r, log') \<Rightarrow>
          (case getProducts_caught env srv ids log' of
             (ps, log'') \<Rightarrow> ((case r of Inl e \<Rightarrow> JNull | Inr p \<Rightarrow> p) # ps, log'')))"

definition getPopularProducts_fixed ::
  "process_env \<Rightarrow> server \<Rightarrow> request list \<Rightarrow> (error + jsval) \<times> request list" where
  "getPopularProducts_fixed env srv log =
     (let productIds = POPULAR_PRODUCTS_values
      in case getProducts_caught env srv (take 5 productIds) log of
           (products, log') \<Rightarrow> (Inr (JArr (filter (\<lambda>p. p \<noteq> JNull) products)), log'))"

definition pricing_variant :: "jsval \<Rightarrow> error + jsval" where
  "pricing_variant v =
     bind_result (js_get v ''name'') (\<lambda>n.
     bind_result (js_get v ''price'') (\<lambda>p.
       Inr (JObj [(''name'', n), (''price'', p)])))"

definition getProductPricing_fixed ::
  "process_env \<Rightarrow> server \<Rightarrow> jsval \<Rightarrow> request list \<Rightarrow> (error + jsval) \<times> request list" where
  "getProductPricing_fixed env srv productId log =
     (case getProduct_fixed env srv productId log of
        (Inl e, log') \<Rightarrow> (Inl e, log')
      | (Inr detail, log') \<Rightarrow>
          (bind_result (js_get detail ''variants'') (\<lambda>dv.
           bind_result (js_slice ''detail.variants.slice'' dv 0 5) (\<lambda>sliced.
           bind_result (js_map ''detail.variants.slice(...).map'' pricing_variant sliced) (\<lambda>variants.
           bind_result (js_get detail ''product'') (\<lambda>prod.
           bind_result (js_get prod ''title'') (\<lambda>title.
           bind_result (js_first dv) (\<lambda>v0.
             Inr (JObj [(''product'', title),
                        (''basePrice'', js_or (js_get_opt v0 ''price'') (JStr ''N/A'')),
                        (''variants'', variants)]))))))),
           log'))"

section \<open>The route \<open>/api/printful\<close>\<close>

text \<open>A response built by \<open>NextResponse.json(body, {status})\<close>; \<open>json\<close> is the value
  that is serialised, in which a property whose value is \<open>undefined\<close> is left out on the
  wire.\<close>

record http_response =
  http_status :: nat
  json :: jsval

definition NextResponse_json :: "jsval \<Rightarrow> http_response" where
  "NextResponse_json b = \<lparr>http_status = 200, json = b\<rparr>"

definition errorResponse :: "string \<Rightarrow> nat \<Rightarrow> http_response" where
  "errorResponse msg st =
     \<lparr>http_status = st, json = JObj [(''success'', JBool False), (''error'', JStr msg)]\<rparr>"

text \<open>\<open>searchParams.get(k)\<close> when it is a non-empty string; \<open>None\<close> stands for the two
  values \<open>!\<close> and \<open>||\<close> treat alike, \<open>null\<close> and the empty string.\<close>

definition get_param :: "(string \<times> string) list \<Rightarrow> string \<Rightarrow> string option" where
  "get_param searchParams k =
     (case map_of searchParams k of
        None \<Rightarrow> None
      | Some v \<Rightarrow> if v = [] then None else Some v)"

definition info_payload :: jsval where
  "info_payload =
     JObj [(''success'', JBool True),
           (''api'', JStr ''Printful POD Integration''),
           (''version'', JStr ''2.0''),
           (''actions'',
              JObj [(''GET'', JArr (map JStr [''info'', ''catalog'', ''product'', ''popular'',
                                              ''pricing'', ''store'', ''mockup-status''])),
                    (''POST'', JArr (map JStr [''shipping'', ''estimate'', ''mockup'']))]),
           (''popularProducts'',
              JObj [(''tShirt'', JNum 71), (''hoodie'', JNum 380), (''mug'', JNum 19),
                    (''poster'', JNum 1), (''phoneCase'', JNum 195), (''toteBag'', JNum 84),
                    (''sticker'', JNum 358), (''canvas'', JNum 2)]),
           (''documentation'', JStr ''https://developers.printful.com/docs/'')]"

text \<open>The \<open>try\<close> block of \<open>GET\<close>: \<open>Inl\<close> is what it throws.\<close>

definition GET_try ::
  "process_env \<Rightarrow> server \<Rightarrow> (string \<times> string) list \<Rightarrow> string \<Rightarrow> request list
     \<Rightarrow> (error + http_response) \<times> request list" where
  "GET_try env srv searchParams action log =
     (if action = ''catalog'' then
        (let limit = parseInt (case get_param searchParams ''limit'' of None \<Rightarrow> ''20'' | Some l \<Rightarrow> l)
         in case getCatalog_fixed env srv limit log of
              (Inl e, log') \<Rightarrow> (Inl e, log')
            | (Inr catalog, log') \<Rightarrow>
                (bind_result (js_get catalog ''length'') (\<lambda>n.
                   Inr (NextResponse_json
                     (JObj [(''success'', JBool True), (''products'', catalog), (''count'', n)]))),
                 log'))
      else if action = ''product'' then
        (case get_param searchParams ''id'' of
           None \<Rightarrow> (Inr (errorResponse ''Product ID required'' 400), log)
         | Some productId \<Rightarrow>
             (case getProduct_fixed env srv (parseInt productId) log of
                (Inl e, log') \<Rightarrow> (Inl e, log')
              | (Inr product, log') \<Rightarrow>
                  (Inr (NextResponse_json
                     (JObj [(''success'', JBool True), (''product'', product)])), log')))
      else if action = ''popular'' then
        (case getPopularProducts_fixed env srv log of
           (Inl e, log') \<Rightarrow> (Inl e, log')
         | (Inr products, log') \<Rightarrow>
             (bind_result (js_get products ''length'') (\<lambda>n.
                Inr (NextResponse_json
                  (JObj [(''success'', JBool True), (''products'', products), (''count'', n)]))),
              log'))
      else if action = ''pricing'' then
        (case get_param searchParams ''id'' of
           None \<Rightarrow> (Inr (errorResponse ''Product ID required'' 400), log)
         | Some productId \<Rightarrow>
             (case getProductPricing_fixed env srv (parseInt productId) log of
                (Inl e, log') \<Rightarrow> (Inl e, log')
              | (Inr pricing, log') \<Rightarrow>
                  (Inr (NextResponse_json
                     (JObj [(''success'', JBool True), (''pricing'', pricing)])), log')))
      else if action = ''store'' then
        (case getStoreInfo_fixed env srv log of
           (Inl e, log') \<Rightarrow> (Inl e, log')
         | (Inr store, log') \<Rightarrow>
             (Inr (NextResponse_json
                (JObj [(''success'', JBool True), (''store'', store)])), log'))
      else if action = ''mockup-status'' then
        (case get_param searchParams ''task_key'' of
           None \<Rightarrow> (Inr (errorResponse ''Task key required'' 400), log)
         | Some taskKey \<Rightarrow>
             (case getMockupResult_fixed env srv taskKey log of
                (Inl e, log') \<Rightarrow> (Inl e, log')
              | (Inr result, log') \<Rightarrow>
                  (Inr (NextResponse_json
                     (JObj [(''success'', JBool True), (''result'', result)])), log')))
      else (Inr (NextResponse_json info_payload), log))"

definition GET ::
  "process_env \<Rightarrow> server \<Rightarrow> (string \<times> string) list \<Rightarrow> request list
     \<Rightarrow> http_response \<times> request list" where
  "GET env srv searchParams log =
     (let action = (case get_param searchParams ''action'' of None \<Rightarrow> ''info'' | Some a \<Rightarrow> a)
      in case GET_try env srv searchParams action log of
           (Inl e, log') \<Rightarrow> (errorResponse (message e) 500, log')
         | (Inr resp, log') \<Rightarrow> (resp, log'))"

text \<open>The \<open>try\<close> block of \<open>POST\<close>. \<open>reqBody\<close> is what \<open>req.json()\<close> gives: \<open>Inl m\<close> when the
  request body is not JSON.\<close>

definition POST_try ::
  "process_env \<Rightarrow> server \<Rightarrow> string \<Rightarrow> string + jsval \<Rightarrow> request list
     \<Rightarrow> (error + http_response) \<times> request list" where
  "POST_try env srv action reqBody log =
     (case reqBody of
        Inl m \<Rightarrow> (Inl (SyntaxError m), log)
      | Inr b \<Rightarrow>
          if action = ''shipping'' then
            (case bind_result (js_destructure ''body'' b ''recipient'') (\<lambda>recipient.
                  bind_result (js_destructure ''body'' b ''items'') (\<lambda>items.
                    Inr (recipient, items))) of
               Inl e \<Rightarrow> (Inl e, log)
             | Inr (recipient, items) \<Rightarrow>
                 if \<not> truthy recipient \<or> \<not> truthy items
                 then (Inr (errorResponse ''recipient and items are required'' 400), log)
                 else
                   (case getShippingRates_fixed env srv
                           (JObj [(''recipient'', recipient), (''items'', items)]) log of
                      (Inl e, log') \<Rightarrow> (Inl e, log')
                    | (Inr rates, log') \<Rightarrow>
                        (bind_result (js_get rates ''length'') (\<lambda>n.
                           Inr (NextResponse_json
                             (JObj [(''success'', JBool True), (''rates'', rates), (''count'', n)]))),
                         log')))
          else if action = ''estimate'' then
            (case bind_result (js_destructure ''body'' b ''recipient'') (\<lambda>recipient.
                  bind_result (js_destructure ''body'' b ''items'') (\<lambda>items.
                    Inr (recipient, items))) of
               Inl e \<Rightarrow> (Inl e, log)
             | Inr (recipient, items) \<Rightarrow>
                 if \<not> truthy recipient \<or> \<not> truthy items
                 then (Inr (errorResponse ''recipient and items are required'' 400), log)
                 else
                   (case estimateCosts_fixed env srv
                           (JObj [(''recipient'', recipient), (''items'', items)]) log of
                      (Inl e, log') \<Rightarrow> (Inl e, log')
                    | (Inr estimate, log') \<Rightarrow>
                        (Inr (NextResponse_json
                           (JObj [(''success'', JBool True), (''estimate'', estimate)])), log')))
          else if action = ''mockup'' then
            (case bind_result (js_destructure ''body'' b ''productId'') (\<lambda>productId.
                  bind_result (js_destructure ''body'' b ''variantIds'') (\<lambda>variantIds.
                  bind_result (js_destructure ''body'' b ''files'') (\<lambda>files.
                    Inr (productId, variantIds, files)))) of
               Inl e \<Rightarrow> (Inl e, log)
             | Inr (productId, variantIds, files) \<Rightarrow>
                 if \<not> truthy productId \<or> \<not> truthy variantIds \<or> \<not> truthy files
                 then (Inr (errorResponse ''productId, variantIds, and files are required'' 400), log)
                 else
                   (case createMockupTask_fixed env srv productId variantIds files log of
                      (Inl e, log') \<Rightarrow> (Inl e, log')
                    | (Inr task, log') \<Rightarrow>
                        (Inr (NextResponse_json
                           (JObj [(''success'', JBool True), (''task'', task)])), log')))
          else
            (Inr (errorResponse
                    (''Unknown action: '' @ action @ ''. Use: shipping, estimate, mockup'') 400),
             log))"

definition POST ::
  "process_env \<Rightarrow> server \<Rightarrow> (string \<times> string) list \<Rightarrow> string + jsval \<Rightarrow> request list
     \<Rightarrow> http_response \<times> request list" where
  "POST env srv searchParams reqBody log =
     (case get_param searchParams ''action'' of
        None \<Rightarrow>
          (errorResponse ''Action parameter required. Use: shipping, estimate, mockup'' 400, log)
      | Some action \<Rightarrow>
          (case POST_try env srv action reqBody log of
             (Inl e, log') \<Rightarrow> (errorResponse (message e) 500, log')
           | (Inr resp, log') \<Rightarrow> (resp, log')))"

section \<open>The component \<open>PrintfulBrowser\<close>\<close>

record Product =
  product_id :: int
  product_title :: string
  product_type_name :: string
  product_brand :: string
  product_image :: string
  product_variant_count :: int

record Variant =
  variant_id :: int
  variant_name :: string
  variant_size :: string
  variant_color :: string
  variant_color_code :: string
  variant_price :: string
  variant_in_stock :: bool

record ProductDetail =
  detail_product :: Product
  detail_variants :: "Variant list"

record ShippingRate =
  rate_id :: string
  rate_name :: string
  rate_rate :: string
  rate_minDeliveryDays :: int
  rate_maxDeliveryDays :: int

datatype view = ViewCatalog | ViewProduct | ViewEstimate

text \<open>The seven \<open>useState\<close> cells; \<open>None\<close> is \<open>null\<close>.\<close>

record browser_state =
  products :: "Product list"
  selectedProduct :: "ProductDetail option"
  selectedVariant :: "Variant option"
  shippingRates :: "ShippingRate list"
  loading :: bool
  error_text :: "string option"
  view :: view

definition initial_state :: browser_state where
  "initial_state =
     \<lparr>products = [], selectedProduct = None, selectedVariant = None, shippingRates = [],
      loading = True, error_text = None, view = ViewCatalog\<rparr>"

definition goBack :: "browser_state \<Rightarrow> browser_state" where
  "goBack s =
     (if view s = ViewEstimate then s\<lparr>view := ViewProduct, shippingRates := []\<rparr>
      else if view s = ViewProduct
      then s\<lparr>view := ViewCatalog, selectedProduct := None, selectedVariant := None\<rparr>
      else s)"

text \<open>What one call of the component returns: the element of the first \<open>return\<close> whose
  condition holds, with the state it displays, or \<open>null\<close>.\<close>

datatype rendered =
    LoadingDisplay
  | ErrorDisplay string
  | CatalogView "Product list"
  | ProductView ProductDetail "Variant option"
  | EstimateView ProductDetail Variant "ShippingRate list"
  | RenderNull

definition render :: "browser_state \<Rightarrow> rendered" where
  "render s =
     (if loading s then LoadingDisplay
      else
        (case (case error_text s of None \<Rightarrow> None | Some m \<Rightarrow> if m = [] then None else Some m) of
           Some m \<Rightarrow> ErrorDisplay m
         | None \<Rightarrow>
             (if view s = ViewCatalog then CatalogView (products s)
              else
                (case (view s, selectedProduct s, selectedVariant s) of
                   (ViewProduct, Some p, v) \<Rightarrow> ProductView p v
                 | (ViewEstimate, Some p, Some v) \<Rightarrow> EstimateView p v (shippingRates s)
                 | _ \<Rightarrow> RenderNull))))"

fun shows_catalog :: "rendered \<Rightarrow> bool" where
  "shows_catalog (CatalogView ps) = True"
| "shows_catalog r = False"

fun shows_product :: "rendered \<Rightarrow> bool" where
  "shows_product (ProductView p v) = True"
| "shows_product r = False"

fun shows_estimate :: "rendered \<Rightarrow> bool" where
  "shows_estimate (EstimateView p v rs) = True"
| "shows_estimate r = False"

section \<open>POSIX paths\<close>

text \<open>The functions of Node's \<open>path\<close> module the download handler calls, on a POSIX
  system: a path is split at \<open>/\<close>; empty and \<open>.\<close> segments vanish; \<open>..\<close> removes the
  segment before it, and where there is none it stays in a relative path and vanishes in
  an absolute one.\<close>

fun split_on :: "char \<Rightarrow> string \<Rightarrow> string list" where
  "split_on c [] = [[]]"
| "split_on c (x # xs) =
     (if x = c then [] # split_on c xs
      else case split_on c xs of
             [] \<Rightarrow> [[x]]
           | seg # segs \<Rightarrow> (x # seg) # segs)"

definition normalize_step :: "bool \<Rightarrow> string list \<Rightarrow> string \<Rightarrow> string list" where
  "normalize_step allowAboveRoot res seg =
     (if seg = [] \<or> seg = ''.'' then res
      else if seg = ''..'' then
        (if res \<noteq> [] \<and> last res \<noteq> ''..'' then butlast res
         else if allowAboveRoot then res @ [''..'']
         else res)
      else res @ [seg])"

definition normalize_segments :: "bool \<Rightarrow> string list \<Rightarrow> string list" where
  "normalize_segments allowAboveRoot segs = foldl (normalize_step allowAboveRoot) [] segs"

definition normalizeString :: "string \<Rightarrow> bool \<Rightarrow> string" where
  "normalizeString path allowAboveRoot =
     join_with ''/'' (normalize_segments allowAboveRoot (split_on CHR ''/'' path))"

definition path_isAbsolute :: "string \<Rightarrow> bool" where
  "path_isAbsolute path = (take 1 path = ''/'')"

definition path_normalize :: "string \<Rightarrow> string" where
  "path_normalize path =
     (if path = [] then ''.''
      else
        let isAbsolute = (hd path = CHR ''/'');
            trailingSeparator = (last path = CHR ''/'');
            p = normalizeString path (\<not> isAbsolute)
        in if p = [] then (if isAbsolute then ''/'' else if trailingSeparator then ''./'' else ''.'')
           else (if isAbsolute then ''/'' else []) @ p @ (if trailingSeparator then ''/'' else []))"

definition path_join :: "string list \<Rightarrow> string" where
  "path_join args =
     (let joined = join_with ''/'' (filter (\<lambda>a. a \<noteq> []) args)
      in if joined = [] then ''.'' else path_normalize joined)"

text \<open>\<open>path.basename\<close>: the last segment that is not empty.\<close>

definition path_basename :: "string \<Rightarrow> string" where
  "path_basename path =
     (case filter (\<lambda>seg. seg \<noteq> []) (split_on CHR ''/'' path) of
        [] \<Rightarrow> []
      | segs \<Rightarrow> last segs)"

text \<open>\<open>path.extname\<close> of a name without \<open>/\<close>: from the last dot on, unless there is no
  dot, the last dot starts the name, or the name is \<open>..\<close>.\<close>

definition path_extname :: "string \<Rightarrow> string" where
  "path_extname name =
     (let tail = takeWhile (\<lambda>c. c \<noteq> CHR ''.'') (rev name);
          dot = length name - length tail - 1
      in if CHR ''.'' \<notin> set name \<or> dot = 0 \<or> name = ''..'' then []
         else drop dot name)"

text \<open>\<open>s.includes(sub)\<close>.\<close>

fun str_includes :: "string \<Rightarrow> string \<Rightarrow> bool" where
  "str_includes [] sub = (sub = [])"
| "str_includes (x # xs) sub = (take (length sub) (x # xs) = sub \<or> str_includes xs sub)"

definition toLowerCase :: "string \<Rightarrow> string" where
  "toLowerCase s =
     map (\<lambda>c. case map_of (zip ''ABCDEFGHIJKLMNOPQRSTUVWXYZ'' ''abcdefghijklmnopqrstuvwxyz'') c of
                 None \<Rightarrow> c
               | Some l \<Rightarrow> l) s"

definition encodeURIComponent :: "string \<Rightarrow> string" where
  "encodeURIComponent s =
     concat (map (\<lambda>c. if alphanumeric c \<or> c \<in> set ''-_.!~*()'' \<or> c = CHR 0x27 then [c]
                       else percent_byte c) s)"

section \<open>The marketplace download handler\<close>

text \<open>
  What the handler awaits from its collaborators, each of which may throw: the signed-in
  user (his id, \<open>None\<close> for \<open>null\<close>), the \<open>data\<close> of the product row looked up by
  slug, the access check, the working directory and the two file-system calls.
  \<open>fs_stat\<close> gives the size \<open>stats.size\<close>.
\<close>

record download_env =
  getUser :: "error + string option"
  product_data :: "string \<Rightarrow> error + jsval"
  userHasProductAccess :: "string option \<Rightarrow> jsval \<Rightarrow> error + bool"
  cwd :: string
  fs_stat :: "string \<Rightarrow> error + nat"
  fs_readFile :: "string \<Rightarrow> error + string"

datatype fs_op = Stat string | ReadFile string

text \<open>A response built by \<open>new NextResponse(body, {status, headers})\<close>.\<close>

record file_response =
  file_status :: nat
  file_body :: string
  file_headers :: "(string \<times> string) list"

definition plain_response :: "string \<Rightarrow> nat \<Rightarrow> file_response" where
  "plain_response b st = \<lparr>file_status = st, file_body = b, file_headers = []\<rparr>"

text \<open>\<open>notFound()\<close> of \<open>next/navigation\<close> never returns: it throws.\<close>

definition notFound :: error where
  "notFound = Error ''NEXT_NOT_FOUND''"

definition MAX_FILE_SIZE :: nat where
  "MAX_FILE_SIZE = 50 * 1024 * 1024"

definition contentTypeMap :: "(string \<times> string) list" where
  "contentTypeMap =
     [(''.pdf'', ''application/pdf''),
      (''.epub'', ''application/epub+zip''),
      (''.zip'', ''application/zip''),
      (''.jpg'', ''image/jpeg''),
      (''.jpeg'', ''image/jpeg''),
      (''.png'', ''image/png''),
      (''.txt'', ''text/plain''),
      (''.md'', ''text/markdown'')]"

text \<open>The inner \<open>try\<close> block with its \<open>catch\<close>: the size is checked before the file is
  read, and any failure of the two calls answers 404.\<close>

definition serve_file ::
  "download_env \<Rightarrow> string \<Rightarrow> fs_op list \<Rightarrow> file_response \<times> fs_op list" where
  "serve_file e fileAbsPath ops =
     (case fs_stat e fileAbsPath of
        Inl err \<Rightarrow> (plain_response ''File not found'' 404, ops @ [Stat fileAbsPath])
      | Inr stats_size \<Rightarrow>
          if stats_size > MAX_FILE_SIZE
          then (plain_response ''File too large'' 413, ops @ [Stat fileAbsPath])
          else
            (case fs_readFile e fileAbsPath of
               Inl err \<Rightarrow>
                 (plain_response ''File not found'' 404,
                  ops @ [Stat fileAbsPath, ReadFile fileAbsPath])
             | Inr fileData \<Rightarrow>
                 (let fileName = path_basename fileAbsPath;
                      fileExt = toLowerCase (path_extname fileName);
                      contentType =
                        (case map_of contentTypeMap fileExt of
                           None \<Rightarrow> ''application/octet-stream''
                         | Some t \<Rightarrow> t)
                  in \<lparr>file_status = 200,
                      file_body = fileData,
                      file_headers =
                        [(''Content-Type'', contentType),
                         (''Content-Disposition'',
                            ''attachment; filename='' @ [CHR 0x22] @ encodeURIComponent fileName
                              @ [CHR 0x22]),
                         (''X-Content-Type-Options'', ''nosniff''),
                         (''Cache-Control'', ''private, max-age=3600'')]\<rparr>,
                  ops @ [Stat fileAbsPath, ReadFile fileAbsPath])))"

text \<open>The outer \<open>try\<close> block: \<open>Inl\<close> is what it throws.\<close>

definition download_try ::
  "download_env \<Rightarrow> string \<Rightarrow> fs_op list \<Rightarrow> (error + file_response) \<times> fs_op list" where
  "download_try e slug ops =
     (case getUser e of
        Inl err \<Rightarrow> (Inl err, ops)
      | Inr user \<Rightarrow>
          (case product_data e slug of
             Inl err \<Rightarrow> (Inl err, ops)
           | Inr data \<Rightarrow>
               (case data of
                  JObj kvs \<Rightarrow>
                    (case map_of kvs ''file_path'' of
                       None \<Rightarrow> (Inl notFound, ops)
                     | Some file_path \<Rightarrow>
                         if \<not> truthy file_path then (Inl notFound, ops)
                         else
                           (case userHasProductAccess e user (js_get_opt data ''id'') of
                              Inl err \<Rightarrow> (Inl err, ops)
                            | Inr hasAccess \<Rightarrow>
                                if \<not> hasAccess then (Inr (plain_response ''Forbidden'' 403), ops)
                                else
                                  (case file_path of
                                     JStr fp \<Rightarrow>
                                       (let normalizedPath = path_normalize fp
                                        in if str_includes normalizedPath ''..''
                                              \<or> path_isAbsolute normalizedPath
                                           then (Inr (plain_response ''Invalid file path'' 400), ops)
                                           else
                                             (case serve_file e
                                                     (path_join [cwd e, ''storage'', normalizedPath])
                                                     ops of
                                                (resp, ops') \<Rightarrow> (Inr resp, ops')))
                                   | _ \<Rightarrow>
                                       (Inl (TypeError
                                          ''The path argument must be of type string''), ops))))
                | _ \<Rightarrow> (Inl notFound, ops))))"

definition download_GET ::
  "download_env \<Rightarrow> string \<Rightarrow> fs_op list \<Rightarrow> file_response \<times> fs_op list" where
  "download_GET e slug ops =
     (case download_try e slug ops of
        (Inl err, ops') \<Rightarrow> (plain_response ''Internal server error'' 500, ops')
      | (Inr resp, ops') \<Rightarrow> (resp, ops'))"

section \<open>The operations of the two clients\<close>

text \<open>Every exported function of the original client, with its arguments.\<close>

datatype call_orig =
    O_getCatalog
  | O_getProduct jsval
  | O_createSyncProduct jsval jsval jsval
  | O_createMockup jsval jsval jsval
  | O_getMockupResult string
  | O_getShippingRates jsval
  | O_createOrder jsval
  | O_getOrder string
  | O_listOrders list_params
  | O_cancelOrder string
  | O_getStoreInfo
  | O_estimateCosts jsval
  | O_quickCreateProduct quick_params

fun run_orig ::
  "(string \<Rightarrow> jsval) \<Rightarrow> process_env \<Rightarrow> server \<Rightarrow> call_orig \<Rightarrow> request list
     \<Rightarrow> (error + jsval) \<times> request list" where
  "run_orig strnum env srv O_getCatalog log = getCatalog_orig env srv log"
| "run_orig strnum env srv (O_getProduct i) log = getProduct_orig env srv i log"
| "run_orig strnum env srv (O_createSyncProduct n t vs) log = createSyncProduct_orig env srv n t vs log"
| "run_orig strnum env srv (O_createMockup i vs fs) log = createMockup_orig env srv i vs fs log"
| "run_orig strnum env srv (O_getMockupResult k) log = getMockupResult_orig env srv k log"
| "run_orig strnum env srv (O_getShippingRates p) log = getShippingRates_orig env srv p log"
| "run_orig strnum env srv (O_createOrder p) log = createOrder_orig env srv p log"
| "run_orig strnum env srv (O_getOrder i) log = getOrder_orig env srv i log"
| "run_orig strnum env srv (O_listOrders p) log = listOrders_orig env srv p log"
| "run_orig strnum env srv (O_cancelOrder i) log = cancelOrder_orig env srv i log"
| "run_orig strnum env srv O_getStoreInfo log = getStoreInfo_orig env srv log"
| "run_orig strnum env srv (O_estimateCosts p) log = estimateCosts_orig env srv p log"
| "run_orig strnum env srv (O_quickCreateProduct p) log = quickCreateProduct_orig strnum env srv p log"

text \<open>Every exported function of the fixed client, with its arguments.\<close>

datatype call_fixed =
    F_getCatalog jsval
  | F_getProduct jsval
  | F_getVariant jsval
  | F_getShippingRates jsval
  | F_estimateCosts jsval
  | F_createMockupTask jsval jsval jsval
  | F_getMockupResult string
  | F_getStoreInfo
  | F_createDraftOrder jsval jsval
  | F_getPopularProducts
  | F_getProductPricing jsval

fun run_fixed ::
  "process_env \<Rightarrow> server \<Rightarrow> call_fixed \<Rightarrow> request list \<Rightarrow> (error + jsval) \<times> request list" where
  "run_fixed env srv (F_getCatalog l) log = getCatalog_fixed env srv l log"
| "run_fixed env srv (F_getProduct i) log = getProduct_fixed env srv i log"
| "run_fixed env srv (F_getVariant i) log = getVariant_fixed env srv i log"
| "run_fixed env srv (F_getShippingRates p) log = getShippingRates_fixed env srv p log"
| "run_fixed env srv (F_estimateCosts p) log = estimateCosts_fixed env srv p log"
| "run_fixed env srv (F_createMockupTask i vs fs) log = createMockupTask_fixed env srv i vs fs log"
| "run_fixed env srv (F_getMockupResult k) log = getMockupResult_fixed env srv k log"
| "run_fixed env srv F_getStoreInfo log = getStoreInfo_fixed env srv log"
| "run_fixed env srv (F_createDraftOrder r i) log = createDraftOrder_fixed env srv r i log"
| "run_fixed env srv F_getPopularProducts log = getPopularProducts_fixed env srv log"
| "run_fixed env srv (F_getProductPricing i) log = getProductPricing_fixed env srv i log"

text \<open>\<open>sends h log log'\<close>: the log grew from \<open>log\<close> to \<open>log'\<close>, and every request added
  carries exactly the headers \<open>h\<close>.\<close>

definition sends :: "(string \<rightharpoonup> string) \<Rightarrow> request list \<Rightarrow> request list \<Rightarrow> bool" where
  "sends h log log' = (\<exists>new. log' = log @ new \<and> (\<forall>q \<in> set new. headers q = h))"

section \<open>Segments of a path\<close>

text \<open>A path segment that names a file or a directory.\<close>

definition plain_segment :: "string \<Rightarrow> bool" where
  "plain_segment seg = (seg \<noteq> [] \<and> seg \<noteq> ''.'' \<and> seg \<noteq> ''..'' \<and> CHR ''/'' \<notin> set seg)"

section \<open>Rendering numbers\<close>

lemma string_of_nat_small: "n < 10 \<Longrightarrow> string_of_nat n = [digit_char n]"
  by (subst string_of_nat.simps) simp

lemma string_of_nat_large:
  "10 \<le> n \<Longrightarrow> string_of_nat n = string_of_nat (n div 10) @ [digit_char (n mod 10)]"
  by (subst string_of_nat.simps) simp

lemma string_of_int_ids:
  "string_of_int 71 = ''71''" "string_of_int 380 = ''380''" "string_of_int 19 = ''19''"
  "string_of_int 1 = ''1''" "string_of_int 195 = ''195''"
  by (simp_all add: string_of_int_def string_of_nat_small string_of_nat_large digit_char_def)

lemma js_to_string_ids:
  "js_to_string (JNum 71) = ''71''" "js_to_string (JNum 380) = ''380''"
  "js_to_string (JNum 19) = ''19''" "js_to_string (JNum 1) = ''1''"
  "js_to_string (JNum 195) = ''195''"
  by (simp_all add: string_of_int_ids)

section \<open>Rounding to doubles\<close>

lemma bit_length_0: "bit_length 0 = 0"
  by (simp add: bit_length.simps)

lemma bit_length_pos: "0 < n \<Longrightarrow> bit_length n = Suc (bit_length (n div 2))"
  by (subst bit_length.simps) simp

lemma reduce_dyadic_stop: "k = 0 \<or> odd m \<Longrightarrow> reduce_dyadic m k = (m, k)"
  by (subst reduce_dyadic.simps) simp

lemma reduce_dyadic_step:
  "0 < k \<Longrightarrow> even m \<Longrightarrow> reduce_dyadic m k = reduce_dyadic (m div 2) (k - 1)"
  by (subst reduce_dyadic.simps) simp

lemma bit_length_bounds:
  "0 < n \<Longrightarrow> 2 ^ (bit_length n - 1) \<le> n \<and> n < 2 ^ bit_length n"
proof (induction n rule: bit_length.induct)
  case (1 n)
  show ?case
  proof (cases "n div 2 = 0")
    case True
    with 1(2) have "n = 1" by presburger
    then show ?thesis by (simp add: bit_length_pos bit_length_0)
  next
    case False
    then have pos: "0 < n div 2" by simp
    from 1(1) [OF _ pos] 1(2)
    have ih: "2 ^ (bit_length (n div 2) - 1) \<le> n div 2" "n div 2 < 2 ^ bit_length (n div 2)"
      by simp_all
    have bl: "bit_length n = Suc (bit_length (n div 2))"
      using 1(2) by (rule bit_length_pos)
    have bpos: "0 < bit_length (n div 2)"
      using pos by (simp add: bit_length_pos)
    then have e: "2 ^ bit_length (n div 2) = (2::nat) * 2 ^ (bit_length (n div 2) - 1)"
      by (cases "bit_length (n div 2)") simp_all
    from ih(1) have "2 * 2 ^ (bit_length (n div 2) - 1) \<le> n" by presburger
    moreover from ih(2) have "n < 2 * 2 ^ bit_length (n div 2)" by presburger
    ultimately show ?thesis by (simp add: bl e)
  qed
qed

lemma bit_length_le:
  assumes "0 < n" and "n < 2 ^ k"
  shows "bit_length n \<le> k"
proof (rule ccontr)
  assume "\<not> bit_length n \<le> k"
  then have "k \<le> bit_length n - 1" by simp
  then have "(2::nat) ^ k \<le> 2 ^ (bit_length n - 1)" by (rule power_increasing) simp
  with bit_length_bounds [OF assms(1)] assms(2) show False by linarith
qed

lemma floor_log2_integer:
  assumes "0 < n"
  shows "floor_log2 n 1 = int (bit_length n) - 1"
proof -
  have one: "bit_length (Suc 0) = Suc 0" by (simp add: bit_length_pos bit_length_0)
  have pos: "0 < bit_length n" using assms by (simp add: bit_length_pos)
  have "2 ^ (bit_length n - 1) \<le> n" using bit_length_bounds [OF assms] by simp
  moreover have "nat (int (bit_length n) - 1) = bit_length n - 1" by simp
  moreover have "nat (- (int (bit_length n) - 1)) = 0" using pos by simp
  ultimately show ?thesis
    by (simp add: floor_log2_def one Let_def)
qed

lemma reduce_dyadic_power: "reduce_dyadic (m * 2 ^ k) k = (m, 0)"
proof (induction k)
  case 0
  show ?case by (simp add: reduce_dyadic_stop)
next
  case (Suc k)
  have "reduce_dyadic (m * 2 ^ Suc k) (Suc k) = reduce_dyadic (m * 2 ^ Suc k div 2) (Suc k - 1)"
    by (rule reduce_dyadic_step) simp_all
  then show ?case by (simp add: Suc)
qed

lemma round_half_even_one: "round_half_even a (Suc 0) = a"
  by (simp add: round_half_even_def)

lemma to_double_integer:
  assumes "0 < n" and "n \<le> 2 ^ 53"
  shows "to_double neg n 1 = JNum (with_sign neg n)"
proof -
  let ?l = "int (bit_length n) - 1"
  have fl: "floor_log2 n 1 = ?l" using assms(1) by (rule floor_log2_integer)
  have pos: "0 < bit_length n" using assms(1) by (simp add: bit_length_pos)
  have "n < 2 ^ 54" using assms(2) by simp
  then have le: "bit_length n \<le> 54" by (rule bit_length_le [OF assms(1)])
  have n0: "n \<noteq> 0" using assms(1) by simp
  consider "bit_length n \<le> 52" | "bit_length n = 53" | "bit_length n = 54"
    using le by linarith
  then show ?thesis
  proof cases
    case 1
    then have x: "max (?l - 52) (- 1074) = - int (53 - bit_length n)" using pos by simp
    have neg: "\<not> (0::int) \<le> - int (53 - bit_length n)" using 1 by simp
    show ?thesis
      unfolding to_double_def fl x Let_def
      using n0 neg
      by (simp add: round_half_even_one reduce_dyadic_power)
  next
    case 2
    then have x: "max (?l - 52) (- 1074) = 0" by simp
    show ?thesis
      unfolding to_double_def fl x Let_def
      using n0 assms(2) 2
      by (simp add: round_half_even_one)
  next
    case 3
    then have x: "max (?l - 52) (- 1074) = 1" by simp
    have "2 ^ 53 \<le> n" using bit_length_bounds [OF assms(1)] 3 by simp
    with assms(2) have n: "n = 2 ^ 53" by simp
    show ?thesis
      unfolding to_double_def fl x Let_def
      using 3 by (simp add: n round_half_even_def)
  qed
qed


section \<open>Facts about the request wrappers\<close>

lemma printfulRequest_fixed_unconfigured:
  "getHeaders_fixed env = Inl e \<Longrightarrow> printfulRequest_fixed env srv ep opts log = (Inl e, log)"
  by (simp add: printfulRequest_fixed_def)

lemma printfulRequest_fixed_sent:
  "getHeaders_fixed env = Inr h \<Longrightarrow>
   printfulRequest_fixed env srv ep opts log =
     (unwrap_fixed (srv (log @ [fetch_args h ep opts])), log @ [fetch_args h ep opts])"
  by (simp add: printfulRequest_fixed_def fetch_def)

lemma printfulRequest_orig_unconfigured:
  "getHeaders_orig env = Inl e \<Longrightarrow> printfulRequest_orig env srv ep opts log = (Inl e, log)"
  by (simp add: printfulRequest_orig_def)

lemma printfulRequest_orig_sent:
  "getHeaders_orig env = Inr h \<Longrightarrow>
   printfulRequest_orig env srv ep opts log =
     (unwrap_orig (srv (log @ [fetch_args h ep opts])), log @ [fetch_args h ep opts])"
  by (simp add: printfulRequest_orig_def fetch_def)

lemma unwrap_fixed_ok:
  "js_get d ''code'' = Inr (JNum 200) \<Longrightarrow>
   unwrap_fixed (Resp \<lparr>status = st, payload = Inr d\<rparr>) = js_get d ''result''"
  by (simp add: unwrap_fixed_def)

lemma js_get_total: "d \<noteq> JUndefined \<Longrightarrow> d \<noteq> JNull \<Longrightarrow> js_get d k = Inr (js_get_opt d k)"
  by (cases d) (simp_all add: js_get_opt_def)

lemma js_get_Inr_defined: "js_get d k = Inr v \<Longrightarrow> d \<noteq> JUndefined \<and> d \<noteq> JNull"
  by (cases d) simp_all

section \<open>The two versions of the request wrapper\<close>

text \<open>
  C1, as amended. The original wrapper decides by the HTTP status, the fixed one by the
  \<open>code\<close> field of the envelope. For a response whose body is JSON and whose status is
  in 200..299 exactly when that code is 200, the two succeed together and both return the
  envelope's \<open>result\<close>; when they fail on an envelope that is not \<open>null\<close>, the original
  raises an error with the envelope's \<open>result\<close> as its message (or, when that is falsy,
  the text \<open>Printful API error:\<close> with the status), the fixed one with \<open>error.message\<close>,
  then \<open>result\<close>, then that text with the code.
\<close>

theorem printfulRequest_versions_agree:
  assumes body: "payload r = Inr d"
    and agree: "response_ok r \<longleftrightarrow> js_get d ''code'' = Inr (JNum 200)"
  shows "((\<exists>v. unwrap_orig (Resp r) = Inr v) \<longleftrightarrow> (\<exists>v. unwrap_fixed (Resp r) = Inr v))
       \<and> (response_ok r \<longrightarrow>
            unwrap_orig (Resp r) = Inr (js_get_opt d ''result'')
          \<and> unwrap_fixed (Resp r) = Inr (js_get_opt d ''result''))
       \<and> (\<not> response_ok r \<longrightarrow> d \<noteq> JNull \<longrightarrow> d \<noteq> JUndefined \<longrightarrow>
            unwrap_orig (Resp r) =
              Inl (Error (js_to_string
                (js_or (js_get_opt d ''result'')
                   (JStr (''Printful API error: '' @ string_of_nat (status r))))))
          \<and> unwrap_fixed (Resp r) =
              Inl (Error (js_to_string
                (js_or (js_get_opt (js_get_opt d ''error'') ''message'')
                   (js_or (js_get_opt d ''result'')
                      (JStr (''Printful API error: '' @ js_to_string (js_get_opt d ''code''))))))))"
proof (cases "response_ok r")
  case True
  with agree have code: "js_get d ''code'' = Inr (JNum 200)" by simp
  then have "d \<noteq> JUndefined \<and> d \<noteq> JNull" by (rule js_get_Inr_defined)
  then have res: "js_get d ''result'' = Inr (js_get_opt d ''result'')" by (simp add: js_get_total)
  have "unwrap_orig (Resp r) = Inr (js_get_opt d ''result'')"
    using True body res by (simp add: unwrap_orig_def)
  moreover have "unwrap_fixed (Resp r) = Inr (js_get_opt d ''result'')"
    using body code res by (simp add: unwrap_fixed_def)
  ultimately show ?thesis using True by simp
next
  case False
  with agree have code: "js_get d ''code'' \<noteq> Inr (JNum 200)" by simp
  have o: "\<exists>e. unwrap_orig (Resp r) = Inl e"
    using False body by (cases "js_get d ''result''") (simp_all add: unwrap_orig_def)
  have f: "\<exists>e. unwrap_fixed (Resp r) = Inl e"
  proof (cases "d = JUndefined \<or> d = JNull")
    case True
    then show ?thesis using body by (auto simp: unwrap_fixed_def)
  next
    case False
    then show ?thesis using body code by (simp add: unwrap_fixed_def js_get_total)
  qed
  have msg: "unwrap_orig (Resp r) =
              Inl (Error (js_to_string
                (js_or (js_get_opt d ''result'')
                   (JStr (''Printful API error: '' @ string_of_nat (status r))))))
          \<and> unwrap_fixed (Resp r) =
              Inl (Error (js_to_string
                (js_or (js_get_opt (js_get_opt d ''error'') ''message'')
                   (js_or (js_get_opt d ''result'')
                      (JStr (''Printful API error: '' @ js_to_string (js_get_opt d ''code'')))))))"
    if "d \<noteq> JNull" "d \<noteq> JUndefined"
    using that \<open>\<not> response_ok r\<close> body code
    by (simp add: unwrap_orig_def unwrap_fixed_def js_get_total)
  from o f msg \<open>\<not> response_ok r\<close> show ?thesis by auto
qed

text \<open>The amended C1 at a 404 response: both versions fail, the original with the
  envelope's \<open>result\<close>, the fixed one with \<open>error.message\<close>.\<close>

theorem printfulRequest_versions_agree_witness:
  "unwrap_orig (Resp \<lparr>status = 404, payload = Inr (JObj
       [(''code'', JNum 404), (''result'', JStr ''Not Found''),
        (''error'', JObj [(''reason'', JStr ''NotFound''), (''message'', JStr ''No such product'')])])\<rparr>)
     = Inl (Error ''Not Found'')
   \<and> unwrap_fixed (Resp \<lparr>status = 404, payload = Inr (JObj
       [(''code'', JNum 404), (''result'', JStr ''Not Found''),
        (''error'', JObj [(''reason'', JStr ''NotFound''), (''message'', JStr ''No such product'')])])\<rparr>)
     = Inl (Error ''No such product'')"
  using printfulRequest_versions_agree
    [of "\<lparr>status = 404, payload = Inr (JObj
       [(''code'', JNum 404), (''result'', JStr ''Not Found''),
        (''error'', JObj [(''reason'', JStr ''NotFound''), (''message'', JStr ''No such product'')])])\<rparr>"
        "JObj
       [(''code'', JNum 404), (''result'', JStr ''Not Found''),
        (''error'', JObj [(''reason'', JStr ''NotFound''), (''message'', JStr ''No such product'')])]"]
  by (simp add: response_ok_def js_get_opt_def js_or_def)

text \<open>C1 as stated fails: on a response of status 200 whose envelope has the code 400 the
  original version succeeds and returns the \<open>result\<close>, and the fixed version raises.\<close>

theorem printfulRequest_versions_differ:
  "unwrap_orig (Resp \<lparr>status = 200, payload = Inr (JObj
       [(''code'', JNum 400), (''result'', JStr ''Bad Request'')])\<rparr>)
     = Inr (JStr ''Bad Request'')
   \<and> unwrap_fixed (Resp \<lparr>status = 200, payload = Inr (JObj
       [(''code'', JNum 400), (''result'', JStr ''Bad Request'')])\<rparr>)
     = Inl (Error ''Bad Request'')"
  by (simp add: unwrap_orig_def unwrap_fixed_def response_ok_def js_get_opt_def js_or_def)

section \<open>Store information\<close>

text \<open>
  C10. When the key is configured and the provider answers the request for \<open>/stores\<close>
  with an envelope of code 200 whose \<open>result\<close> is a list, the fixed \<open>getStoreInfo\<close>
  returns the first element of that list, and \<open>undefined\<close> without any error when the
  list is empty; it issues that one request.
\<close>

theorem getStoreInfo_first_store:
  assumes "getHeaders_fixed env = Inr h"
    and "srv (log @ [fetch_args h ''/stores'' no_options]) = Resp \<lparr>status = st, payload = Inr d\<rparr>"
    and "js_get d ''code'' = Inr (JNum 200)"
    and "js_get d ''result'' = Inr (JArr stores)"
  shows "getStoreInfo_fixed env srv log =
           (Inr (case stores of [] \<Rightarrow> JUndefined | s # rest \<Rightarrow> s),
            log @ [fetch_args h ''/stores'' no_options])"
  using assms
  by (simp add: getStoreInfo_fixed_def printfulRequest_fixed_sent unwrap_fixed_ok)

text \<open>C10 at a provider whose store list is empty.\<close>

theorem getStoreInfo_first_store_witness:
  "fst (getStoreInfo_fixed
          \<lparr>env_PRINTFUL_API_KEY = Some ''secret'', env_PRINTFUL_STORE_ID = None\<rparr>
          (\<lambda>log. Resp \<lparr>status = 200,
                         payload = Inr (JObj [(''code'', JNum 200), (''result'', JArr [])])\<rparr>)
          [])
     = Inr JUndefined"
proof -
  have h: "getHeaders_fixed \<lparr>env_PRINTFUL_API_KEY = Some ''secret'', env_PRINTFUL_STORE_ID = None\<rparr>
             = Inr [''Authorization'' \<mapsto> ''Bearer secret'',
                    ''Content-Type'' \<mapsto> ''application/json'',
                    ''X-PF-Store-Id'' \<mapsto> ''16513682'']"
    by (simp add: getHeaders_fixed_def PRINTFUL_STORE_ID_def)
  show ?thesis
    using getStoreInfo_first_store
      [OF h, of "\<lambda>log. Resp \<lparr>status = 200,
                         payload = Inr (JObj [(''code'', JNum 200), (''result'', JArr [])])\<rparr>"
          "[]" 200 "JObj [(''code'', JNum 200), (''result'', JArr [])]" "[]"]
    by simp
qed

section \<open>Mockup tasks\<close>



section \<open>The views of the browser\<close>

text \<open>
  C7. In every state the component returns one element. While \<open>loading\<close> is set it is the
  loading display, and otherwise, when an error message is set, the error display; so
  one of the three views is shown only when neither applies, and never two of them. The
  product view is shown only in the view \<open>product\<close> with a product selected, the
  estimate view only in the view \<open>estimate\<close> with a product and a variant selected.
\<close>

theorem render_one_view:
  "(loading s \<longrightarrow> render s = LoadingDisplay)
   \<and> (\<forall>m. \<not> loading s \<and> error_text s = Some m \<and> m \<noteq> [] \<longrightarrow> render s = ErrorDisplay m)
   \<and> \<not> (shows_catalog (render s) \<and> shows_product (render s))
   \<and> \<not> (shows_catalog (render s) \<and> shows_estimate (render s))
   \<and> \<not> (shows_product (render s) \<and> shows_estimate (render s))
   \<and> (shows_catalog (render s) \<or> shows_product (render s) \<or> shows_estimate (render s) \<longrightarrow>
        \<not> loading s \<and> (error_text s = None \<or> error_text s = Some []))
   \<and> (shows_catalog (render s) \<longrightarrow> view s = ViewCatalog)
   \<and> (shows_product (render s) \<longrightarrow>
        view s = ViewProduct \<and> (\<exists>p. selectedProduct s = Some p))
   \<and> (shows_estimate (render s) \<longrightarrow>
        view s = ViewEstimate \<and> (\<exists>p v. selectedProduct s = Some p \<and> selectedVariant s = Some v))"
  by (cases "view s"; cases "selectedProduct s"; cases "selectedVariant s"; cases "error_text s")
     (simp_all add: render_def)

text \<open>C7 at a state in the view \<open>estimate\<close> with a product selected and no variant:
  nothing is shown, and once loading is set the loading display is.\<close>

theorem render_one_view_witness:
  "render \<lparr>products = [], selectedProduct = Some \<lparr>detail_product =
              \<lparr>product_id = 71, product_title = ''Tee'', product_type_name = ''T-Shirt'',
               product_brand = ''Bella'', product_image = [], product_variant_count = 0\<rparr>,
              detail_variants = []\<rparr>,
           selectedVariant = None, shippingRates = [], loading = True, error_text = None,
           view = ViewEstimate\<rparr> = LoadingDisplay
   \<and> \<not> shows_estimate (render \<lparr>products = [], selectedProduct = Some \<lparr>detail_product =
              \<lparr>product_id = 71, product_title = ''Tee'', product_type_name = ''T-Shirt'',
               product_brand = ''Bella'', product_image = [], product_variant_count = 0\<rparr>,
              detail_variants = []\<rparr>,
           selectedVariant = None, shippingRates = [], loading = False, error_text = None,
           view = ViewEstimate\<rparr>)"
  using render_one_view [of "\<lparr>products = [], selectedProduct = Some \<lparr>detail_product =
              \<lparr>product_id = 71, product_title = ''Tee'', product_type_name = ''T-Shirt'',
               product_brand = ''Bella'', product_image = [], product_variant_count = 0\<rparr>,
              detail_variants = []\<rparr>,
           selectedVariant = None, shippingRates = [], loading = True, error_text = None,
           view = ViewEstimate\<rparr>"]
    render_one_view [of "\<lparr>products = [], selectedProduct = Some \<lparr>detail_product =
              \<lparr>product_id = 71, product_title = ''Tee'', product_type_name = ''T-Shirt'',
               product_brand = ''Bella'', product_image = [], product_variant_count = 0\<rparr>,
              detail_variants = []\<rparr>,
           selectedVariant = None, shippingRates = [], loading = False, error_text = None,
           view = ViewEstimate\<rparr>"]
  by auto
section \<open>The size limit of downloads\<close>

lemma download_reaches_file:
  assumes "getUser e = Inr user"
    and "product_data e slug = Inr (JObj kvs)"
    and "map_of kvs ''file_path'' = Some (JStr fp)"
    and "fp \<noteq> []"
    and "userHasProductAccess e user (js_get_opt (JObj kvs) ''id'') = Inr True"
    and "\<not> str_includes (path_normalize fp) ''..''"
    and "\<not> path_isAbsolute (path_normalize fp)"
  shows "download_GET e slug ops =
           serve_file e (path_join [cwd e, ''storage'', path_normalize fp]) ops"
  using assms by (simp add: download_GET_def download_try_def split: prod.splits)

text \<open>
  C9. A request resolves to a file when the user and the product row are found, the row
  has a path, the user has access and the path passes the validation. When \<open>fs.stat\<close>
  then reports more than 52428800 bytes for the resolved path, the handler answers 413
  with the text \<open>File too large\<close>, and \<open>stat\<close> is the only file-system call it makes:
  the file is not read.
\<close>

theorem large_file_not_read:
  assumes "getUser e = Inr user"
    and "product_data e slug = Inr (JObj kvs)"
    and "map_of kvs ''file_path'' = Some (JStr fp)"
    and "fp \<noteq> []"
    and "userHasProductAccess e user (js_get_opt (JObj kvs) ''id'') = Inr True"
    and "\<not> str_includes (path_normalize fp) ''..''"
    and "\<not> path_isAbsolute (path_normalize fp)"
    and "fs_stat e (path_join [cwd e, ''storage'', path_normalize fp]) = Inr n"
    and "n > 52428800"
  shows "download_GET e slug ops =
           (\<lparr>file_status = 413, file_body = ''File too large'', file_headers = []\<rparr>,
            ops @ [Stat (path_join [cwd e, ''storage'', path_normalize fp])])"
  using assms(8,9) download_reaches_file [OF assms(1-7)]
  by (simp add: serve_file_def MAX_FILE_SIZE_def plain_response_def)

lemma normalize_big_pdf: "path_normalize ''books/big.pdf'' = ''books/big.pdf''"
  by code_simp

lemma join_big_pdf:
  "path_join [''/srv/app'', ''storage'', ''books/big.pdf''] = ''/srv/app/storage/books/big.pdf''"
  by code_simp

lemma big_pdf_valid:
  "\<not> str_includes ''books/big.pdf'' ''..'' \<and> \<not> path_isAbsolute ''books/big.pdf''"
  by code_simp

text \<open>C9 at a file of 60000000 bytes.\<close>

theorem large_file_not_read_witness:
  "download_GET
     \<lparr>getUser = Inr (Some ''u1''),
      product_data = (\<lambda>slug. Inr (JObj [(''id'', JStr ''p1''), (''title'', JStr ''Big''),
                                          (''file_path'', JStr ''books/big.pdf'')])),
      userHasProductAccess = (\<lambda>u p. Inr True),
      cwd = ''/srv/app'',
      fs_stat = (\<lambda>p. Inr 60000000),
      fs_readFile = (\<lambda>p. Inr ''contents'')\<rparr> ''big'' []
   = (\<lparr>file_status = 413, file_body = ''File too large'', file_headers = []\<rparr>,
      [Stat ''/srv/app/storage/books/big.pdf''])"
  using large_file_not_read
    [of "\<lparr>getUser = Inr (Some ''u1''),
      product_data = (\<lambda>slug. Inr (JObj [(''id'', JStr ''p1''), (''title'', JStr ''Big''),
                                          (''file_path'', JStr ''books/big.pdf'')])),
      userHasProductAccess = (\<lambda>u p. Inr True),
      cwd = ''/srv/app'',
      fs_stat = (\<lambda>p. Inr 60000000),
      fs_readFile = (\<lambda>p. Inr ''contents'')\<rparr>"
      "Some ''u1''" "''big''"
      "[(''id'', JStr ''p1''), (''title'', JStr ''Big''), (''file_path'', JStr ''books/big.pdf'')]"
      "''books/big.pdf''" 60000000 "[]"]
  by (simp add: normalize_big_pdf join_big_pdf big_pdf_valid)

section \<open>Popular products\<close>

lemma getProduct_fixed_unconfigured:
  "getHeaders_fixed env = Inl e \<Longrightarrow> getProduct_fixed env srv i log = (Inl e, log)"
  by (simp add: getProduct_fixed_def printfulRequest_fixed_unconfigured)

lemma getProducts_caught_unconfigured:
  "getHeaders_fixed env = Inl e \<Longrightarrow>
   getProducts_caught env srv ids log = (map (\<lambda>i. JNull) ids, log)"
  by (induction ids) (simp_all add: getProduct_fixed_unconfigured)

lemma getProducts_caught_sent:
  assumes "getHeaders_fixed env = Inr h"
  shows "getProducts_caught env srv ids log =
           (map (\<lambda>k. case unwrap_fixed (srv (log @ take (Suc k)
                         (map (\<lambda>i. fetch_args h (''/products/'' @ js_to_string (JNum i)) no_options) ids))) of
                       Inl e \<Rightarrow> JNull | Inr p \<Rightarrow> p) [0..<length ids],
            log @ map (\<lambda>i. fetch_args h (''/products/'' @ js_to_string (JNum i)) no_options) ids)"
proof (induction ids arbitrary: log)
  case Nil
  show ?case by simp
next
  case (Cons i ids)
  have upt: "[0..<Suc (length ids)] = 0 # map Suc [0..<length ids]"
    by (simp add: upt_conv_Cons map_Suc_upt del: upt_Suc)
  show ?case
    using assms
    by (simp add: Cons.IH getProduct_fixed_def printfulRequest_fixed_sent upt comp_def
          del: upt_Suc)
qed

lemma filter_not_null:
  "filter (\<lambda>p. p \<noteq> JNull) (map (\<lambda>k. case f k of Inl e \<Rightarrow> JNull | Inr p \<Rightarrow> p) ks) =
   concat (map (\<lambda>k. case f k of Inl e \<Rightarrow> [] | Inr p \<Rightarrow> if p = JNull then [] else [p]) ks)"
  by (induction ks) (auto split: sum.splits)

text \<open>
  C5, as amended. There are eight popular products. \<open>getPopularProducts\<close> never
  fails. Without a key it issues no request and returns the empty list. With a key it
  issues five requests, for the products 71, 380, 19, 1 and 195 in this order and for
  none of the other three, and returns, in that order, the results of the calls that
  succeeded with a result other than \<open>null\<close>: a call that failed contributes nothing,
  and neither does one that succeeded with \<open>null\<close>.
\<close>

theorem popular_products_caught:
  "length POPULAR_PRODUCTS_values = 8
   \<and> (\<exists>ps. fst (getPopularProducts_fixed env srv log) = Inr (JArr ps))
   \<and> (\<forall>e. getHeaders_fixed env = Inl e \<longrightarrow>
         getPopularProducts_fixed env srv log = (Inr (JArr []), log))
   \<and> (\<forall>h. getHeaders_fixed env = Inr h \<longrightarrow>
         getPopularProducts_fixed env srv log =
           (Inr (JArr (concat (map
              (\<lambda>k. case unwrap_fixed (srv (log @ take (Suc k)
                            (map (\<lambda>u. \<lparr>url = u, http_method = None, headers = h, body = None\<rparr>)
                               [''https://api.printful.com/products/71'',
                                ''https://api.printful.com/products/380'',
                                ''https://api.printful.com/products/19'',
                                ''https://api.printful.com/products/1'',
                                ''https://api.printful.com/products/195'']))) of
                      Inl e \<Rightarrow> []
                    | Inr p \<Rightarrow> if p = JNull then [] else [p])
              [0..<5]))),
            log @ map (\<lambda>u. \<lparr>url = u, http_method = None, headers = h, body = None\<rparr>)
                    [''https://api.printful.com/products/71'',
                     ''https://api.printful.com/products/380'',
                     ''https://api.printful.com/products/19'',
                     ''https://api.printful.com/products/1'',
                     ''https://api.printful.com/products/195'']))"
proof -
  have ids: "take 5 POPULAR_PRODUCTS_values = [71, 380, 19, 1, 195]"
    by (simp add: POPULAR_PRODUCTS_values_def)
  have never: "\<exists>ps. fst (getPopularProducts_fixed env srv log) = Inr (JArr ps)"
    by (simp add: getPopularProducts_fixed_def split: prod.splits)
  have absent: "getPopularProducts_fixed env srv log = (Inr (JArr []), log)"
    if "getHeaders_fixed env = Inl e" for e
    using that by (simp add: getPopularProducts_fixed_def ids getProducts_caught_unconfigured)
  have reqs: "map (\<lambda>i. fetch_args h (''/products/'' @ js_to_string (JNum i)) no_options) [71, 380, 19, 1, 195]
      = map (\<lambda>u. \<lparr>url = u, http_method = None, headers = h, body = None\<rparr>)
                    [''https://api.printful.com/products/71'',
                     ''https://api.printful.com/products/380'',
                     ''https://api.printful.com/products/19'',
                     ''https://api.printful.com/products/1'',
                     ''https://api.printful.com/products/195'']" for h
    by (simp add: fetch_args_def no_options_def PRINTFUL_API_URL_def string_of_int_ids)
  have len: "length [71, 380, 19, 1, 195::int] = 5" by simp
  have present: "getPopularProducts_fixed env srv log =
           (Inr (JArr (concat (map
              (\<lambda>k. case unwrap_fixed (srv (log @ take (Suc k)
                            (map (\<lambda>u. \<lparr>url = u, http_method = None, headers = h, body = None\<rparr>)
                               [''https://api.printful.com/products/71'',
                                ''https://api.printful.com/products/380'',
                                ''https://api.printful.com/products/19'',
                                ''https://api.printful.com/products/1'',
                                ''https://api.printful.com/products/195'']))) of
                      Inl e \<Rightarrow> []
                    | Inr p \<Rightarrow> if p = JNull then [] else [p])
              [0..<5]))),
            log @ map (\<lambda>u. \<lparr>url = u, http_method = None, headers = h, body = None\<rparr>)
                    [''https://api.printful.com/products/71'',
                     ''https://api.printful.com/products/380'',
                     ''https://api.printful.com/products/19'',
                     ''https://api.printful.com/products/1'',
                     ''https://api.printful.com/products/195''])"
    if h: "getHeaders_fixed env = Inr h" for h
    unfolding getPopularProducts_fixed_def Let_def ids getProducts_caught_sent [OF h] reqs len
      prod.case filter_not_null
    by (rule refl)
  have eight: "length POPULAR_PRODUCTS_values = 8"
    by (simp add: POPULAR_PRODUCTS_values_def)
  from eight never absent present show ?thesis by blast
qed
lemma upt_0_5: "[0..<5] = [0, 1, 2, 3, 4]"
  by code_simp

text \<open>The amended C5 at a provider that has no product 380: the other four are
  returned, and with no key configured the list is empty.\<close>

theorem popular_products_caught_witness:
  "getPopularProducts_fixed
     \<lparr>env_PRINTFUL_API_KEY = Some ''secret'', env_PRINTFUL_STORE_ID = None\<rparr>
     (\<lambda>log. if url (last log) = ''https://api.printful.com/products/380''
             then Resp \<lparr>status = 404, payload = Inr (JObj [(''code'', JNum 404),
                                                            (''result'', JStr ''Not Found'')])\<rparr>
             else Resp \<lparr>status = 200, payload = Inr (JObj [(''code'', JNum 200),
                          (''result'', JObj [(''product'', JStr (url (last log)))])])\<rparr>)
     []
   = (Inr (JArr [JObj [(''product'', JStr ''https://api.printful.com/products/71'')],
                 JObj [(''product'', JStr ''https://api.printful.com/products/19'')],
                 JObj [(''product'', JStr ''https://api.printful.com/products/1'')],
                 JObj [(''product'', JStr ''https://api.printful.com/products/195'')]]),
      map (\<lambda>u. \<lparr>url = u, http_method = None,
                  headers = [''Authorization'' \<mapsto> ''Bearer secret'',
                             ''Content-Type'' \<mapsto> ''application/json'',
                             ''X-PF-Store-Id'' \<mapsto> ''16513682''],
                  body = None\<rparr>)
        [''https://api.printful.com/products/71'',
         ''https://api.printful.com/products/380'',
         ''https://api.printful.com/products/19'',
         ''https://api.printful.com/products/1'',
         ''https://api.printful.com/products/195''])
   \<and> getPopularProducts_fixed
     \<lparr>env_PRINTFUL_API_KEY = None, env_PRINTFUL_STORE_ID = None\<rparr>
     (\<lambda>log. Rejected ''unreachable'') []
   = (Inr (JArr []), [])"
proof -
  have h: "getHeaders_fixed \<lparr>env_PRINTFUL_API_KEY = Some ''secret'', env_PRINTFUL_STORE_ID = None\<rparr>
             = Inr [''Authorization'' \<mapsto> ''Bearer secret'',
                    ''Content-Type'' \<mapsto> ''application/json'',
                    ''X-PF-Store-Id'' \<mapsto> ''16513682'']"
    by (simp add: getHeaders_fixed_def PRINTFUL_STORE_ID_def)
  have n: "getHeaders_fixed \<lparr>env_PRINTFUL_API_KEY = None, env_PRINTFUL_STORE_ID = None\<rparr>
             = Inl not_configured"
    by (simp add: getHeaders_fixed_def)
  show ?thesis
    using popular_products_caught
            [of "\<lparr>env_PRINTFUL_API_KEY = Some ''secret'', env_PRINTFUL_STORE_ID = None\<rparr>"
                "\<lambda>log. if url (last log) = ''https://api.printful.com/products/380''
             then Resp \<lparr>status = 404, payload = Inr (JObj [(''code'', JNum 404),
                                                            (''result'', JStr ''Not Found'')])\<rparr>
             else Resp \<lparr>status = 200, payload = Inr (JObj [(''code'', JNum 200),
                          (''result'', JObj [(''product'', JStr (url (last log)))])])\<rparr>" "[]"]
          popular_products_caught
            [of "\<lparr>env_PRINTFUL_API_KEY = None, env_PRINTFUL_STORE_ID = None\<rparr>"
                "\<lambda>log. Rejected ''unreachable''" "[]"]
    by (simp add: h n upt_0_5 unwrap_fixed_def js_get_opt_def js_or_def)
qed

text \<open>C5 as stated fails: when the provider answers the request for product 380 with
  the code 200 and the result \<open>null\<close>, \<open>getProduct\<close> succeeds for each of the five
  products, for 380 with \<open>null\<close>, and \<open>getPopularProducts\<close> returns four results, not
  the five that were fetched without failure.\<close>

theorem popular_products_null_dropped:
  "fst (getProduct_fixed
          \<lparr>env_PRINTFUL_API_KEY = Some ''secret'', env_PRINTFUL_STORE_ID = None\<rparr>
          (\<lambda>log. Resp \<lparr>status = 200, payload = Inr (JObj [(''code'', JNum 200), (''result'',
             if url (last log) = ''https://api.printful.com/products/380'' then JNull
             else JObj [(''product'', JStr (url (last log)))])])\<rparr>)
          (JNum 380) [])
     = Inr JNull
   \<and> fst (getPopularProducts_fixed
          \<lparr>env_PRINTFUL_API_KEY = Some ''secret'', env_PRINTFUL_STORE_ID = None\<rparr>
          (\<lambda>log. Resp \<lparr>status = 200, payload = Inr (JObj [(''code'', JNum 200), (''result'',
             if url (last log) = ''https://api.printful.com/products/380'' then JNull
             else JObj [(''product'', JStr (url (last log)))])])\<rparr>)
          [])
     = Inr (JArr [JObj [(''product'', JStr ''https://api.printful.com/products/71'')],
                  JObj [(''product'', JStr ''https://api.printful.com/products/19'')],
                  JObj [(''product'', JStr ''https://api.printful.com/products/1'')],
                  JObj [(''product'', JStr ''https://api.printful.com/products/195'')]])"
proof -
  have h: "getHeaders_fixed \<lparr>env_PRINTFUL_API_KEY = Some ''secret'', env_PRINTFUL_STORE_ID = None\<rparr>
             = Inr [''Authorization'' \<mapsto> ''Bearer secret'',
                    ''Content-Type'' \<mapsto> ''application/json'',
                    ''X-PF-Store-Id'' \<mapsto> ''16513682'']"
    by (simp add: getHeaders_fixed_def PRINTFUL_STORE_ID_def)
  have ids: "take 5 POPULAR_PRODUCTS_values = [71, 380, 19, 1, 195]"
    by (simp add: POPULAR_PRODUCTS_values_def)
  show ?thesis
    by (simp add: getPopularProducts_fixed_def ids getProduct_fixed_def
          printfulRequest_fixed_sent [OF h] fetch_args_def no_options_def PRINTFUL_API_URL_def
          string_of_int_ids unwrap_fixed_def)
qed

section \<open>The API key\<close>

lemma sends_refl: "sends h log log"
  by (simp add: sends_def)

lemma sends_one: "headers q = h \<Longrightarrow> sends h log (log @ [q])"
  by (simp add: sends_def)

lemma sends_trans: "sends h a b \<Longrightarrow> sends h b c \<Longrightarrow> sends h a c"
  by (auto simp: sends_def)

lemma headers_fetch_args: "opt_headers opts = None \<Longrightarrow> headers (fetch_args h ep opts) = h"
  by (simp add: fetch_args_def)

lemma printfulRequest_orig_sends:
  "getHeaders_orig env = Inr h \<Longrightarrow> opt_headers opts = None \<Longrightarrow>
   sends h log (snd (printfulRequest_orig env srv ep opts log))"
  by (simp add: printfulRequest_orig_sent sends_one headers_fetch_args)

lemma printfulRequest_fixed_sends:
  "getHeaders_fixed env = Inr h \<Longrightarrow> opt_headers opts = None \<Longrightarrow>
   sends h log (snd (printfulRequest_fixed env srv ep opts log))"
  by (simp add: printfulRequest_fixed_sent sends_one headers_fetch_args)

lemma no_headers_in_options:
  "opt_headers no_options = None" "opt_headers (post_json b) = None"
  by (simp_all add: no_options_def post_json_def)

lemma quickCreateProduct_orig_sends:
  assumes h: "getHeaders_orig env = Inr h"
  shows "sends h log (snd (quickCreateProduct_orig strnum env srv p log))"
proof -
  have one: "sends h l (snd (printfulRequest_orig env srv ep opts l))"
    if "opt_headers opts = None" for l ep opts
    using h that by (rule printfulRequest_orig_sends)
  have step: "sends h log l' \<Longrightarrow> sends h log (snd (printfulRequest_orig env srv ep opts l'))"
    if "opt_headers opts = None" for l' ep opts
    using one [OF that] sends_trans by blast
  show ?thesis
    unfolding quickCreateProduct_orig_def Let_def getProduct_orig_def createSyncProduct_orig_def
      createMockup_orig_def
    by (auto split: prod.splits sum.splits
          simp: no_headers_in_options
          dest!: arg_cong [where f = snd]
          intro!: step one)
qed

lemma run_orig_sends:
  assumes h: "getHeaders_orig env = Inr h"
  shows "sends h log (snd (run_orig strnum env srv c log))"
proof (cases c)
  case (O_cancelOrder i)
  have "sends h log (snd (printfulRequest_orig env srv (''/orders/'' @ i)
          \<lparr>opt_method = Some ''DELETE'', opt_body = None, opt_headers = None\<rparr> log))"
    using h by (rule printfulRequest_orig_sends) simp
  then show ?thesis
    using O_cancelOrder by (auto simp: cancelOrder_orig_def split: prod.splits sum.splits)
next
  case (O_quickCreateProduct p)
  then show ?thesis using h by (simp add: quickCreateProduct_orig_sends)
qed (simp_all add: h printfulRequest_orig_sends no_headers_in_options Let_def
       getCatalog_orig_def getProduct_orig_def createSyncProduct_orig_def createMockup_orig_def
       getMockupResult_orig_def getShippingRates_orig_def createOrder_orig_def getOrder_orig_def
       listOrders_orig_def getStoreInfo_orig_def estimateCosts_orig_def)

lemma getProducts_caught_sends:
  assumes h: "getHeaders_fixed env = Inr h"
  shows "sends h log (snd (getProducts_caught env srv ids log))"
  unfolding getProducts_caught_sent [OF h]
  by (simp add: sends_def headers_fetch_args no_headers_in_options)

lemma run_fixed_sends:
  assumes h: "getHeaders_fixed env = Inr h"
  shows "sends h log (snd (run_fixed env srv c log))"
proof (cases c)
  case F_getStoreInfo
  have "sends h log (snd (printfulRequest_fixed env srv ''/stores'' no_options log))"
    using h by (rule printfulRequest_fixed_sends) (simp add: no_headers_in_options)
  then show ?thesis
    using F_getStoreInfo by (auto simp: getStoreInfo_fixed_def split: prod.splits sum.splits)
next
  case F_getPopularProducts
  then show ?thesis
    using getProducts_caught_sends [OF h, of log srv "take 5 POPULAR_PRODUCTS_values"]
    by (auto simp: getPopularProducts_fixed_def split: prod.splits)
next
  case (F_getProductPricing i)
  have "sends h log (snd (printfulRequest_fixed env srv (''/products/'' @ js_to_string i)
          no_options log))"
    using h by (rule printfulRequest_fixed_sends) (simp add: no_headers_in_options)
  then show ?thesis
    using F_getProductPricing
    by (auto simp: getProductPricing_fixed_def getProduct_fixed_def split: prod.splits sum.splits)
qed (simp_all add: h printfulRequest_fixed_sends no_headers_in_options
       getCatalog_fixed_def getProduct_fixed_def getVariant_fixed_def getShippingRates_fixed_def
       estimateCosts_fixed_def createMockupTask_fixed_def getMockupResult_fixed_def
       createDraftOrder_fixed_def)

lemma run_orig_unconfigured:
  assumes "getHeaders_orig env = Inl e"
  shows "run_orig strnum env srv c log = (Inl e, log)"
  using assms
  by (cases c)
     (simp_all add: printfulRequest_orig_unconfigured Let_def
       getCatalog_orig_def getProduct_orig_def createSyncProduct_orig_def createMockup_orig_def
       getMockupResult_orig_def getShippingRates_orig_def createOrder_orig_def getOrder_orig_def
       listOrders_orig_def cancelOrder_orig_def getStoreInfo_orig_def estimateCosts_orig_def
       quickCreateProduct_orig_def)

lemma run_fixed_unconfigured:
  assumes "getHeaders_fixed env = Inl e"
  shows "run_fixed env srv c log =
           (if c = F_getPopularProducts then Inr (JArr []) else Inl e, log)"
  using assms
  by (cases c)
     (simp_all add: printfulRequest_fixed_unconfigured getProducts_caught_unconfigured
       getCatalog_fixed_def getProduct_fixed_def getVariant_fixed_def getShippingRates_fixed_def
       estimateCosts_fixed_def createMockupTask_fixed_def getMockupResult_fixed_def
       getStoreInfo_fixed_def createDraftOrder_fixed_def getPopularProducts_fixed_def
       getProductPricing_fixed_def)

text \<open>
  C3, as amended. When \<open>PRINTFUL_API_KEY\<close> is absent (or empty), no operation of either
  client issues a request; every operation fails with the error
  \<open>PRINTFUL_API_KEY not configured\<close>, except \<open>getPopularProducts\<close>, which catches that
  error for each product and returns the empty list. When the key is present, every
  request an operation issues carries \<open>Authorization: Bearer <key>\<close>, and in the fixed
  client also \<open>X-PF-Store-Id\<close>.
\<close>

theorem api_key_guard:
  "(env_PRINTFUL_API_KEY env = None \<or> env_PRINTFUL_API_KEY env = Some [] \<longrightarrow>
      run_orig strnum env srv c log = (Inl (Error ''PRINTFUL_API_KEY not configured''), log)
    \<and> run_fixed env srv c' log =
        (if c' = F_getPopularProducts then Inr (JArr [])
         else Inl (Error ''PRINTFUL_API_KEY not configured''), log))
   \<and> (\<forall>k. env_PRINTFUL_API_KEY env = Some k \<and> k \<noteq> [] \<longrightarrow>
        (\<exists>new. snd (run_orig strnum env srv c log) = log @ new
           \<and> (\<forall>q \<in> set new. headers q ''Authorization'' = Some (''Bearer '' @ k)))
      \<and> (\<exists>new. snd (run_fixed env srv c' log) = log @ new
           \<and> (\<forall>q \<in> set new. headers q ''Authorization'' = Some (''Bearer '' @ k)
                 \<and> headers q ''X-PF-Store-Id'' = Some (PRINTFUL_STORE_ID env))))"
proof (intro conjI impI allI)
  assume "env_PRINTFUL_API_KEY env = None \<or> env_PRINTFUL_API_KEY env = Some []"
  then have o: "getHeaders_orig env = Inl (Error ''PRINTFUL_API_KEY not configured'')"
    and f: "getHeaders_fixed env = Inl (Error ''PRINTFUL_API_KEY not configured'')"
    by (auto simp: getHeaders_orig_def getHeaders_fixed_def not_configured_def)
  show "run_orig strnum env srv c log = (Inl (Error ''PRINTFUL_API_KEY not configured''), log)"
    using o by (rule run_orig_unconfigured)
  show "run_fixed env srv c' log =
        (if c' = F_getPopularProducts then Inr (JArr [])
         else Inl (Error ''PRINTFUL_API_KEY not configured''), log)"
    using f by (rule run_fixed_unconfigured)
next
  fix k
  assume k: "env_PRINTFUL_API_KEY env = Some k \<and> k \<noteq> []"
  then have o: "getHeaders_orig env = Inr [''Authorization'' \<mapsto> ''Bearer '' @ k,
                    ''Content-Type'' \<mapsto> ''application/json'']"
    by (simp add: getHeaders_orig_def)
  from run_orig_sends [OF o, of log strnum srv c]
  show "\<exists>new. snd (run_orig strnum env srv c log) = log @ new
           \<and> (\<forall>q \<in> set new. headers q ''Authorization'' = Some (''Bearer '' @ k))"
    by (auto simp: sends_def)
  from k have f: "getHeaders_fixed env = Inr [''Authorization'' \<mapsto> ''Bearer '' @ k,
                    ''Content-Type'' \<mapsto> ''application/json'',
                    ''X-PF-Store-Id'' \<mapsto> PRINTFUL_STORE_ID env]"
    by (simp add: getHeaders_fixed_def)
  from run_fixed_sends [OF f, of log srv c']
  show "\<exists>new. snd (run_fixed env srv c' log) = log @ new
           \<and> (\<forall>q \<in> set new. headers q ''Authorization'' = Some (''Bearer '' @ k)
                 \<and> headers q ''X-PF-Store-Id'' = Some (PRINTFUL_STORE_ID env))"
    by (auto simp: sends_def)
qed

text \<open>The amended C3 without a key, at \<open>getOrder\<close> of the original client and
  \<open>getStoreInfo\<close> of the fixed one, and with a key at \<open>getPopularProducts\<close>.\<close>

theorem api_key_guard_witness:
  "run_orig (\<lambda>s. JNaN) \<lparr>env_PRINTFUL_API_KEY = None, env_PRINTFUL_STORE_ID = None\<rparr>
     (\<lambda>log. Rejected ''unreachable'') (O_getOrder ''42'') []
     = (Inl (Error ''PRINTFUL_API_KEY not configured''), [])
   \<and> run_fixed \<lparr>env_PRINTFUL_API_KEY = None, env_PRINTFUL_STORE_ID = None\<rparr>
     (\<lambda>log. Rejected ''unreachable'') F_getStoreInfo []
     = (Inl (Error ''PRINTFUL_API_KEY not configured''), [])
   \<and> list_all (\<lambda>q. headers q ''Authorization'' = Some ''Bearer secret''
                   \<and> headers q ''X-PF-Store-Id'' = Some ''16513682'')
       (snd (run_fixed \<lparr>env_PRINTFUL_API_KEY = Some ''secret'', env_PRINTFUL_STORE_ID = None\<rparr>
          (\<lambda>log. Rejected ''unreachable'') F_getPopularProducts []))"
  using api_key_guard
    [of "\<lparr>env_PRINTFUL_API_KEY = None, env_PRINTFUL_STORE_ID = None\<rparr>" "\<lambda>s. JNaN"
        "\<lambda>log. Rejected ''unreachable''" "O_getOrder ''42''" "[]" F_getStoreInfo]
    api_key_guard
    [of "\<lparr>env_PRINTFUL_API_KEY = Some ''secret'', env_PRINTFUL_STORE_ID = None\<rparr>" "\<lambda>s. JNaN"
        "\<lambda>log. Rejected ''unreachable''" "O_getOrder ''42''" "[]" F_getPopularProducts]
  by (auto simp: list_all_iff PRINTFUL_STORE_ID_def)

text \<open>C3 as stated fails: without a key \<open>getPopularProducts\<close> does not fail with the
  error, it returns the empty list.\<close>

theorem api_key_guard_popular_products:
  "run_fixed \<lparr>env_PRINTFUL_API_KEY = None, env_PRINTFUL_STORE_ID = None\<rparr>
     (\<lambda>log. Rejected ''unreachable'') F_getPopularProducts []
     = (Inr (JArr []), [])
   \<and> fst (run_fixed \<lparr>env_PRINTFUL_API_KEY = None, env_PRINTFUL_STORE_ID = None\<rparr>
     (\<lambda>log. Rejected ''unreachable'') F_getPopularProducts [])
     \<noteq> Inl (Error ''PRINTFUL_API_KEY not configured'')"
  by (simp add: getPopularProducts_fixed_def getProducts_caught_unconfigured
        getHeaders_fixed_def)

section \<open>Dispatch in the route\<close>

lemma js_destructure_get: "js_get b k = Inr v \<Longrightarrow> js_destructure src b k = Inr v"
  by (cases b) (simp_all add: js_destructure_def)

lemma js_get_length:
  "bind_result (js_get v ''length'') f =
     (if v = JNull \<or> v = JUndefined then Inl (cannot_read v ''length'')
      else f (js_get_opt v ''length''))"
  by (cases v) (simp_all add: bind_result_def js_get_opt_def)

lemma getPopularProducts_fixed_array:
  "\<exists>ps log'. getPopularProducts_fixed env srv log = (Inr (JArr ps), log')"
  by (simp add: getPopularProducts_fixed_def split: prod.splits)

lemma GET_info:
  assumes "case get_param sp ''action'' of
             None \<Rightarrow> True
           | Some a \<Rightarrow> a \<notin> set [''catalog'', ''product'', ''popular'', ''pricing'', ''store'',
                                  ''mockup-status'']"
  shows "GET env srv sp log = (\<lparr>http_status = 200, json = info_payload\<rparr>, log)"
  using assms
  by (cases "get_param sp ''action''") (simp_all add: GET_def GET_try_def NextResponse_json_def)

lemma POST_no_action:
  assumes "get_param sp ''action'' = None"
  shows "POST env srv sp reqBody log =
           (\<lparr>http_status = 400,
             json = JObj [(''success'', JBool False),
                          (''error'', JStr ''Action parameter required. Use: shipping, estimate, mockup'')]\<rparr>,
            log)"
  using assms by (simp add: POST_def errorResponse_def)

lemma GET_catalog:
  assumes "get_param sp ''action'' = Some ''catalog''"
  shows "GET env srv sp log =
           (case getCatalog_fixed env srv
                   (parseInt (case get_param sp ''limit'' of None \<Rightarrow> ''20'' | Some l \<Rightarrow> l)) log of
              (Inl e, log') \<Rightarrow>
                (\<lparr>http_status = 500,
                   json = JObj [(''success'', JBool False), (''error'', JStr (message e))]\<rparr>, log')
            | (Inr res, log') \<Rightarrow>
                if res = JNull \<or> res = JUndefined
                then (\<lparr>http_status = 500,
                   json = JObj [(''success'', JBool False), (''error'', JStr (message (cannot_read res ''length'')))]\<rparr>, log')
                else (\<lparr>http_status = 200,
                   json = JObj [(''success'', JBool True), (''products'', res),
                                           (''count'', js_get_opt res ''length'')]\<rparr>, log'))"
  using assms
  by (simp add: GET_def GET_try_def NextResponse_json_def errorResponse_def
        js_get_length Let_def split: prod.splits sum.splits)

lemma GET_product:
  assumes "get_param sp ''action'' = Some ''product''"
    and "get_param sp ''id'' = Some pid"
  shows "GET env srv sp log =
           (case getProduct_fixed env srv (parseInt pid) log of
              (Inl e, log') \<Rightarrow>
                (\<lparr>http_status = 500,
                   json = JObj [(''success'', JBool False), (''error'', JStr (message e))]\<rparr>, log')
            | (Inr res, log') \<Rightarrow>
                (\<lparr>http_status = 200,
                   json = JObj [(''success'', JBool True), (''product'', res)]\<rparr>, log'))"
  using assms
  by (simp add: GET_def GET_try_def NextResponse_json_def errorResponse_def
        js_get_length Let_def split: prod.splits sum.splits)

lemma GET_popular:
  assumes "get_param sp ''action'' = Some ''popular''"
  shows "GET env srv sp log =
           (case getPopularProducts_fixed env srv log of
              (Inl e, log') \<Rightarrow>
                (\<lparr>http_status = 500,
                   json = JObj [(''success'', JBool False), (''error'', JStr (message e))]\<rparr>, log')
            | (Inr res, log') \<Rightarrow>
                (\<lparr>http_status = 200,
                   json = JObj [(''success'', JBool True), (''products'', res),
                                           (''count'', js_get_opt res ''length'')]\<rparr>, log'))"
  using assms getPopularProducts_fixed_array [of env srv log]
  by (auto simp: GET_def GET_try_def NextResponse_json_def errorResponse_def
        bind_result_def js_get_opt_def)

lemma GET_pricing:
  assumes "get_param sp ''action'' = Some ''pricing''"
    and "get_param sp ''id'' = Some pid"
  shows "GET env srv sp log =
           (case getProductPricing_fixed env srv (parseInt pid) log of
              (Inl e, log') \<Rightarrow>
                (\<lparr>http_status = 500,
                   json = JObj [(''success'', JBool False), (''error'', JStr (message e))]\<rparr>, log')
            | (Inr res, log') \<Rightarrow>
                (\<lparr>http_status = 200,
                   json = JObj [(''success'', JBool True), (''pricing'', res)]\<rparr>, log'))"
  using assms
  by (simp add: GET_def GET_try_def NextResponse_json_def errorResponse_def
        js_get_length Let_def split: prod.splits sum.splits)

lemma GET_store:
  assumes "get_param sp ''action'' = Some ''store''"
  shows "GET env srv sp log =
           (case getStoreInfo_fixed env srv log of
              (Inl e, log') \<Rightarrow>
                (\<lparr>http_status = 500,
                   json = JObj [(''success'', JBool False), (''error'', JStr (message e))]\<rparr>, log')
            | (Inr res, log') \<Rightarrow>
                (\<lparr>http_status = 200,
                   json = JObj [(''success'', JBool True), (''store'', res)]\<rparr>, log'))"
  using assms
  by (simp add: GET_def GET_try_def NextResponse_json_def errorResponse_def
        js_get_length Let_def split: prod.splits sum.splits)

lemma GET_mockup_status:
  assumes "get_param sp ''action'' = Some ''mockup-status''"
    and "get_param sp ''task_key'' = Some taskKey"
  shows "GET env srv sp log =
           (case getMockupResult_fixed env srv taskKey log of
              (Inl e, log') \<Rightarrow>
                (\<lparr>http_status = 500,
                   json = JObj [(''success'', JBool False), (''error'', JStr (message e))]\<rparr>, log')
            | (Inr res, log') \<Rightarrow>
                (\<lparr>http_status = 200,
                   json = JObj [(''success'', JBool True), (''result'', res)]\<rparr>, log'))"
  using assms
  by (simp add: GET_def GET_try_def NextResponse_json_def errorResponse_def
        js_get_length Let_def split: prod.splits sum.splits)

lemma POST_shipping:
  assumes "get_param sp ''action'' = Some ''shipping''"
    and "js_get b ''recipient'' = Inr recipient"
    and "js_get b ''items'' = Inr items"
    and "truthy recipient"
    and "truthy items"
  shows "POST env srv sp (Inr b) log =
           (case getShippingRates_fixed env srv
                   (JObj [(''recipient'', recipient), (''items'', items)]) log of
              (Inl e, log') \<Rightarrow>
                (\<lparr>http_status = 500,
                   json = JObj [(''success'', JBool False), (''error'', JStr (message e))]\<rparr>, log')
            | (Inr res, log') \<Rightarrow>
                if res = JNull \<or> res = JUndefined
                then (\<lparr>http_status = 500,
                   json = JObj [(''success'', JBool False), (''error'', JStr (message (cannot_read res ''length'')))]\<rparr>, log')
                else (\<lparr>http_status = 200,
                   json = JObj [(''success'', JBool True), (''rates'', res),
                                           (''count'', js_get_opt res ''length'')]\<rparr>, log'))"
  using assms
  by (simp add: POST_def POST_try_def NextResponse_json_def errorResponse_def
        bind_result_def js_destructure_get js_get_total split: prod.splits sum.splits)

lemma POST_estimate:
  assumes "get_param sp ''action'' = Some ''estimate''"
    and "js_get b ''recipient'' = Inr recipient"
    and "js_get b ''items'' = Inr items"
    and "truthy recipient"
    and "truthy items"
  shows "POST env srv sp (Inr b) log =
           (case estimateCosts_fixed env srv
                   (JObj [(''recipient'', recipient), (''items'', items)]) log of
              (Inl e, log') \<Rightarrow>
                (\<lparr>http_status = 500,
                   json = JObj [(''success'', JBool False), (''error'', JStr (message e))]\<rparr>, log')
            | (Inr res, log') \<Rightarrow>
                (\<lparr>http_status = 200,
                   json = JObj [(''success'', JBool True), (''estimate'', res)]\<rparr>, log'))"
  using assms
  by (simp add: POST_def POST_try_def NextResponse_json_def errorResponse_def
        bind_result_def js_destructure_get js_get_total split: prod.splits sum.splits)

lemma POST_mockup:
  assumes "get_param sp ''action'' = Some ''mockup''"
    and "js_get b ''productId'' = Inr productId"
    and "js_get b ''variantIds'' = Inr variantIds"
    and "js_get b ''files'' = Inr files"
    and "truthy productId"
    and "truthy variantIds"
    and "truthy files"
  shows "POST env srv sp (Inr b) log =
           (case createMockupTask_fixed env srv productId variantIds files log of
              (Inl e, log') \<Rightarrow>
                (\<lparr>http_status = 500,
                   json = JObj [(''success'', JBool False), (''error'', JStr (message e))]\<rparr>, log')
            | (Inr res, log') \<Rightarrow>
                (\<lparr>http_status = 200,
                   json = JObj [(''success'', JBool True), (''task'', res)]\<rparr>, log'))"
  using assms
  by (simp add: POST_def POST_try_def NextResponse_json_def errorResponse_def
        bind_result_def js_destructure_get js_get_total split: prod.splits sum.splits)

text \<open>
  C6, as amended. Both handlers dispatch on the \<open>action\<close> query parameter. A GET whose
  action is missing, empty or not one of the six it knows answers with the info payload,
  whose \<open>success\<close> is true; a POST whose action is missing answers 400. Once a handler
  has called the client function of its action (for \<open>product\<close>, \<open>pricing\<close> and
  \<open>mockup-status\<close> the parameter must be there, for the POST actions the body's
  fields must be truthy), an error thrown by the client is answered with status 500 and
  \<open>{success: false, error: <message>}\<close>, and a result is answered with status 200 and
  a JSON body holding \<open>success: true\<close> and the result. The exception is a result that
  is \<open>null\<close> or \<open>undefined\<close> for \<open>catalog\<close> and \<open>shipping\<close>, whose bodies also
  hold the result's \<open>length\<close>: reading it throws, and the answer is status 500 with
  the message of that error.
\<close>

theorem route_dispatch:
  "((case get_param sp ''action'' of
       None \<Rightarrow> True
     | Some a \<Rightarrow> a \<notin> set [''catalog'', ''product'', ''popular'', ''pricing'', ''store'',
                            ''mockup-status'']) \<longrightarrow>
      GET env srv sp log = (\<lparr>http_status = 200, json = info_payload\<rparr>, log)
    \<and> js_get info_payload ''success'' = Inr (JBool True))
   \<and> (get_param sp ''action'' = None \<longrightarrow>
      POST env srv sp reqBody log =
        (\<lparr>http_status = 400,
          json = JObj [(''success'', JBool False),
                       (''error'', JStr ''Action parameter required. Use: shipping, estimate, mockup'')]\<rparr>,
         log))
   \<and> (get_param sp ''action'' = Some ''catalog'' \<longrightarrow>
      GET env srv sp log =
        (case getCatalog_fixed env srv
                (parseInt (case get_param sp ''limit'' of None \<Rightarrow> ''20'' | Some l \<Rightarrow> l)) log of
           (Inl e, log') \<Rightarrow>
             (\<lparr>http_status = 500,
                   json = JObj [(''success'', JBool False), (''error'', JStr (message e))]\<rparr>, log')
         | (Inr res, log') \<Rightarrow>
             if res = JNull \<or> res = JUndefined
             then (\<lparr>http_status = 500,
                   json = JObj [(''success'', JBool False), (''error'', JStr (message (cannot_read res ''length'')))]\<rparr>, log')
             else (\<lparr>http_status = 200,
                   json = JObj [(''success'', JBool True), (''products'', res),
                                        (''count'', js_get_opt res ''length'')]\<rparr>, log')))
   \<and> (get_param sp ''action'' = Some ''product''
        \<and> get_param sp ''id'' = Some pid \<longrightarrow>
      GET env srv sp log =
        (case getProduct_fixed env srv (parseInt pid) log of
           (Inl e, log') \<Rightarrow>
             (\<lparr>http_status = 500,
                   json = JObj [(''success'', JBool False), (''error'', JStr (message e))]\<rparr>, log')
         | (Inr res, log') \<Rightarrow>
             (\<lparr>http_status = 200,
                   json = JObj [(''success'', JBool True), (''product'', res)]\<rparr>, log')))
   \<and> (get_param sp ''action'' = Some ''popular'' \<longrightarrow>
      GET env srv sp log =
        (case getPopularProducts_fixed env srv log of
           (Inl e, log') \<Rightarrow>
             (\<lparr>http_status = 500,
                   json = JObj [(''success'', JBool False), (''error'', JStr (message e))]\<rparr>, log')
         | (Inr res, log') \<Rightarrow>
             (\<lparr>http_status = 200,
                   json = JObj [(''success'', JBool True), (''products'', res),
                                        (''count'', js_get_opt res ''length'')]\<rparr>, log')))
   \<and> (get_param sp ''action'' = Some ''pricing''
        \<and> get_param sp ''id'' = Some pid \<longrightarrow>
      GET env srv sp log =
        (case getProductPricing_fixed env srv (parseInt pid) log of
           (Inl e, log') \<Rightarrow>
             (\<lparr>http_status = 500,
                   json = JObj [(''success'', JBool False), (''error'', JStr (message e))]\<rparr>, log')
         | (Inr res, log') \<Rightarrow>
             (\<lparr>http_status = 200,
                   json = JObj [(''success'', JBool True), (''pricing'', res)]\<rparr>, log')))
   \<and> (get_param sp ''action'' = Some ''store'' \<longrightarrow>
      GET env srv sp log =
        (case getStoreInfo_fixed env srv log of
           (Inl e, log') \<Rightarrow>
             (\<lparr>http_status = 500,
                   json = JObj [(''success'', JBool False), (''error'', JStr (message e))]\<rparr>, log')
         | (Inr res, log') \<Rightarrow>
             (\<lparr>http_status = 200,
                   json = JObj [(''success'', JBool True), (''store'', res)]\<rparr>, log')))
   \<and> (get_param sp ''action'' = Some ''mockup-status''
        \<and> get_param sp ''task_key'' = Some taskKey \<longrightarrow>
      GET env srv sp log =
        (case getMockupResult_fixed env srv taskKey log of
           (Inl e, log') \<Rightarrow>
             (\<lparr>http_status = 500,
                   json = JObj [(''success'', JBool False), (''error'', JStr (message e))]\<rparr>, log')
         | (Inr res, log') \<Rightarrow>
             (\<lparr>http_status = 200,
                   json = JObj [(''success'', JBool True), (''result'', res)]\<rparr>, log')))
   \<and> (get_param sp ''action'' = Some ''shipping''
        \<and> js_get b ''recipient'' = Inr recipient
        \<and> js_get b ''items'' = Inr items
        \<and> truthy recipient
        \<and> truthy items \<longrightarrow>
      POST env srv sp (Inr b) log =
        (case getShippingRates_fixed env srv
                (JObj [(''recipient'', recipient), (''items'', items)]) log of
           (Inl e, log') \<Rightarrow>
             (\<lparr>http_status = 500,
                   json = JObj [(''success'', JBool False), (''error'', JStr (message e))]\<rparr>, log')
         | (Inr res, log') \<Rightarrow>
             if res = JNull \<or> res = JUndefined
             then (\<lparr>http_status = 500,
                   json = JObj [(''success'', JBool False), (''error'', JStr (message (cannot_read res ''length'')))]\<rparr>, log')
             else (\<lparr>http_status = 200,
                   json = JObj [(''success'', JBool True), (''rates'', res),
                                        (''count'', js_get_opt res ''length'')]\<rparr>, log')))
   \<and> (get_param sp ''action'' = Some ''estimate''
        \<and> js_get b ''recipient'' = Inr recipient
        \<and> js_get b ''items'' = Inr items
        \<and> truthy recipient
        \<and> truthy items \<longrightarrow>
      POST env srv sp (Inr b) log =
        (case estimateCosts_fixed env srv
                (JObj [(''recipient'', recipient), (''items'', items)]) log of
           (Inl e, log') \<Rightarrow>
             (\<lparr>http_status = 500,
                   json = JObj [(''success'', JBool False), (''error'', JStr (message e))]\<rparr>, log')
         | (Inr res, log') \<Rightarrow>
             (\<lparr>http_status = 200,
                   json = JObj [(''success'', JBool True), (''estimate'', res)]\<rparr>, log')))
   \<and> (get_param sp ''action'' = Some ''mockup''
        \<and> js_get b ''productId'' = Inr productId
        \<and> js_get b ''variantIds'' = Inr variantIds
        \<and> js_get b ''files'' = Inr files
        \<and> truthy productId
        \<and> truthy variantIds
        \<and> truthy files \<longrightarrow>
      POST env srv sp (Inr b) log =
        (case createMockupTask_fixed env srv productId variantIds files log of
           (Inl e, log') \<Rightarrow>
             (\<lparr>http_status = 500,
                   json = JObj [(''success'', JBool False), (''error'', JStr (message e))]\<rparr>, log')
         | (Inr res, log') \<Rightarrow>
             (\<lparr>http_status = 200,
                   json = JObj [(''success'', JBool True), (''task'', res)]\<rparr>, log')))"
  by (intro conjI impI; (elim conjE)?;
      ((rule GET_info POST_no_action GET_catalog GET_product GET_popular GET_pricing GET_store
          GET_mockup_status POST_shipping POST_estimate POST_mockup; assumption)
       | simp add: info_payload_def))

text \<open>The amended C6 at five requests: a GET without action and one with an unknown
  action, a POST without action, and \<open>action=store\<close> once against a provider with one
  store and once with no key configured.\<close>

theorem route_dispatch_witness:
  "GET \<lparr>env_PRINTFUL_API_KEY = None, env_PRINTFUL_STORE_ID = None\<rparr>
       (\<lambda>log. Rejected ''unreachable'') [] []
     = (\<lparr>http_status = 200, json = info_payload\<rparr>, [])
   \<and> GET \<lparr>env_PRINTFUL_API_KEY = None, env_PRINTFUL_STORE_ID = None\<rparr>
       (\<lambda>log. Rejected ''unreachable'') [(''action'', ''orders'')] []
     = (\<lparr>http_status = 200, json = info_payload\<rparr>, [])
   \<and> fst (POST \<lparr>env_PRINTFUL_API_KEY = None, env_PRINTFUL_STORE_ID = None\<rparr>
       (\<lambda>log. Rejected ''unreachable'') [] (Inr (JObj [])) [])
     = \<lparr>http_status = 400,
        json = JObj [(''success'', JBool False),
                     (''error'', JStr ''Action parameter required. Use: shipping, estimate, mockup'')]\<rparr>
   \<and> fst (GET \<lparr>env_PRINTFUL_API_KEY = Some ''secret'', env_PRINTFUL_STORE_ID = None\<rparr>
       (\<lambda>log. Resp \<lparr>status = 200, payload = Inr (JObj [(''code'', JNum 200),
                       (''result'', JArr [JObj [(''id'', JNum 16513682)]])])\<rparr>)
       [(''action'', ''store'')] [])
     = \<lparr>http_status = 200,
        json = JObj [(''success'', JBool True), (''store'', JObj [(''id'', JNum 16513682)])]\<rparr>
   \<and> GET \<lparr>env_PRINTFUL_API_KEY = None, env_PRINTFUL_STORE_ID = None\<rparr>
       (\<lambda>log. Rejected ''unreachable'') [(''action'', ''store'')] []
     = (\<lparr>http_status = 500,
         json = JObj [(''success'', JBool False),
                      (''error'', JStr ''PRINTFUL_API_KEY not configured'')]\<rparr>, [])"
proof -
  have h: "getHeaders_fixed \<lparr>env_PRINTFUL_API_KEY = Some ''secret'', env_PRINTFUL_STORE_ID = None\<rparr>
             = Inr [''Authorization'' \<mapsto> ''Bearer secret'',
                    ''Content-Type'' \<mapsto> ''application/json'',
                    ''X-PF-Store-Id'' \<mapsto> ''16513682'']"
    by (simp add: getHeaders_fixed_def PRINTFUL_STORE_ID_def)
  have n: "getHeaders_fixed \<lparr>env_PRINTFUL_API_KEY = None, env_PRINTFUL_STORE_ID = None\<rparr>
             = Inl (Error ''PRINTFUL_API_KEY not configured'')"
    by (simp add: getHeaders_fixed_def not_configured_def)
  have none: "get_param [] ''action'' = None"
    and other: "get_param [(''action'', ''orders'')] ''action'' = Some ''orders''"
    and store: "get_param [(''action'', ''store'')] ''action'' = Some ''store''"
    by (simp_all add: get_param_def)
  have i1: "GET \<lparr>env_PRINTFUL_API_KEY = None, env_PRINTFUL_STORE_ID = None\<rparr>
       (\<lambda>log. Rejected ''unreachable'') [] []
     = (\<lparr>http_status = 200, json = info_payload\<rparr>, [])"
    using route_dispatch [THEN conjunct1, of "[]"] by (simp add: none)
  have i2: "GET \<lparr>env_PRINTFUL_API_KEY = None, env_PRINTFUL_STORE_ID = None\<rparr>
       (\<lambda>log. Rejected ''unreachable'') [(''action'', ''orders'')] []
     = (\<lparr>http_status = 200, json = info_payload\<rparr>, [])"
    using route_dispatch [THEN conjunct1, of "[(''action'', ''orders'')]"] by (simp add: other)
  have p: "POST \<lparr>env_PRINTFUL_API_KEY = None, env_PRINTFUL_STORE_ID = None\<rparr>
       (\<lambda>log. Rejected ''unreachable'') [] (Inr (JObj [])) []
     = (\<lparr>http_status = 400,
        json = JObj [(''success'', JBool False),
                     (''error'', JStr ''Action parameter required. Use: shipping, estimate, mockup'')]\<rparr>, [])"
    using route_dispatch [THEN conjunct2, THEN conjunct1, of "[]"] by (simp add: none)
  have s1: "GET \<lparr>env_PRINTFUL_API_KEY = Some ''secret'', env_PRINTFUL_STORE_ID = None\<rparr>
       (\<lambda>log. Resp \<lparr>status = 200, payload = Inr (JObj [(''code'', JNum 200),
                       (''result'', JArr [JObj [(''id'', JNum 16513682)]])])\<rparr>)
       [(''action'', ''store'')] []
     = (case getStoreInfo_fixed \<lparr>env_PRINTFUL_API_KEY = Some ''secret'', env_PRINTFUL_STORE_ID = None\<rparr>
             (\<lambda>log. Resp \<lparr>status = 200, payload = Inr (JObj [(''code'', JNum 200),
                       (''result'', JArr [JObj [(''id'', JNum 16513682)]])])\<rparr>) [] of
          (Inl e, log') \<Rightarrow>
            (\<lparr>http_status = 500,
              json = JObj [(''success'', JBool False), (''error'', JStr (message e))]\<rparr>, log')
        | (Inr res, log') \<Rightarrow>
            (\<lparr>http_status = 200,
              json = JObj [(''success'', JBool True), (''store'', res)]\<rparr>, log'))"
    using route_dispatch [THEN conjunct2, THEN conjunct2, THEN conjunct2, THEN conjunct2,
            THEN conjunct2, THEN conjunct2, THEN conjunct1, of "[(''action'', ''store'')]"]
    by (simp add: store)
  have s2: "GET \<lparr>env_PRINTFUL_API_KEY = None, env_PRINTFUL_STORE_ID = None\<rparr>
       (\<lambda>log. Rejected ''unreachable'') [(''action'', ''store'')] []
     = (case getStoreInfo_fixed \<lparr>env_PRINTFUL_API_KEY = None, env_PRINTFUL_STORE_ID = None\<rparr>
             (\<lambda>log. Rejected ''unreachable'') [] of
          (Inl e, log') \<Rightarrow>
            (\<lparr>http_status = 500,
              json = JObj [(''success'', JBool False), (''error'', JStr (message e))]\<rparr>, log')
        | (Inr res, log') \<Rightarrow>
            (\<lparr>http_status = 200,
              json = JObj [(''success'', JBool True), (''store'', res)]\<rparr>, log'))"
    using route_dispatch [THEN conjunct2, THEN conjunct2, THEN conjunct2, THEN conjunct2,
            THEN conjunct2, THEN conjunct2, THEN conjunct1, of "[(''action'', ''store'')]"]
    by (simp add: store)
  show ?thesis
    unfolding i1 i2 p s1 s2
    by (simp add: getStoreInfo_fixed_def
          printfulRequest_fixed_sent [OF h] printfulRequest_fixed_unconfigured [OF n]
          unwrap_fixed_def)
qed

text \<open>C6 as stated fails: when the provider answers the catalog request with the code
  200 and the result \<open>null\<close>, \<open>getCatalog\<close> returns that result without an error, and
  the handler answers with status 500 and \<open>success: false\<close>, for it throws reading
  \<open>catalog.length\<close>.\<close>

theorem route_catalog_null_result:
  "fst (getCatalog_fixed \<lparr>env_PRINTFUL_API_KEY = Some ''secret'', env_PRINTFUL_STORE_ID = None\<rparr>
          (\<lambda>log. Resp \<lparr>status = 200, payload = Inr (JObj [(''code'', JNum 200),
                                                            (''result'', JNull)])\<rparr>)
          (parseInt ''20'') [])
     = Inr JNull
   \<and> fst (GET \<lparr>env_PRINTFUL_API_KEY = Some ''secret'', env_PRINTFUL_STORE_ID = None\<rparr>
          (\<lambda>log. Resp \<lparr>status = 200, payload = Inr (JObj [(''code'', JNum 200),
                                                            (''result'', JNull)])\<rparr>)
          [(''action'', ''catalog'')] [])
     = \<lparr>http_status = 500,
        json = JObj [(''success'', JBool False),
                     (''error'', JStr (''Cannot read properties of null (reading ''
                                        @ [CHR 0x27] @ ''length'' @ [CHR 0x27] @ '')''))]\<rparr>"
proof -
  have h: "getHeaders_fixed \<lparr>env_PRINTFUL_API_KEY = Some ''secret'', env_PRINTFUL_STORE_ID = None\<rparr>
             = Inr [''Authorization'' \<mapsto> ''Bearer secret'',
                    ''Content-Type'' \<mapsto> ''application/json'',
                    ''X-PF-Store-Id'' \<mapsto> ''16513682'']"
    by (simp add: getHeaders_fixed_def PRINTFUL_STORE_ID_def)
  have call: "fst (getCatalog_fixed
                \<lparr>env_PRINTFUL_API_KEY = Some ''secret'', env_PRINTFUL_STORE_ID = None\<rparr>
                (\<lambda>log. Resp \<lparr>status = 200, payload = Inr (JObj [(''code'', JNum 200),
                                                                  (''result'', JNull)])\<rparr>)
                limit []) = Inr JNull" for limit
    by (simp add: getCatalog_fixed_def printfulRequest_fixed_sent [OF h] unwrap_fixed_def)
  have action: "get_param [(''action'', ''catalog'')] ''action'' = Some ''catalog''"
    and limit: "get_param [(''action'', ''catalog'')] ''limit'' = None"
    by (simp_all add: get_param_def)
  show ?thesis
    using call [of "parseInt ''20''"]
    by (auto simp: GET_def GET_try_def action limit errorResponse_def bind_result_def
          cannot_read_def Let_def split: prod.splits sum.splits)
qed

section \<open>Quick product creation\<close>

lemma map_result_total:
  "(\<And>x. x \<in> set xs \<Longrightarrow> f x = Inr (g x)) \<Longrightarrow> map_result f xs = Inr (map g xs)"
  by (induction xs) simp_all







lemma with_sign_product:
  assumes "p \<noteq> 0" and "m \<noteq> 0"
  shows "with_sign ((p < 0) \<noteq> (m < 0)) (nat \<bar>p\<bar> * nat \<bar>m\<bar>) = p * m"
proof -
  have prod: "int (nat \<bar>p\<bar> * nat \<bar>m\<bar>) = \<bar>p\<bar> * \<bar>m\<bar>" by simp
  consider "p < 0" "m < 0" | "p < 0" "0 < m" | "0 < p" "m < 0" | "0 < p" "0 < m"
    using assms by linarith
  then show ?thesis
  proof cases
    case 1
    then show ?thesis unfolding with_sign_def prod by simp
  next
    case 2
    then show ?thesis unfolding with_sign_def prod by simp
  next
    case 3
    then show ?thesis unfolding with_sign_def prod by simp
  next
    case 4
    then show ?thesis unfolding with_sign_def prod by simp
  qed
qed


text \<open>On integers that are not zero and whose product does not exceed \<open>2^53\<close> in
  magnitude, \<open>*\<close> is the product of the integers.\<close>

lemma js_times_integers:
  assumes "p \<noteq> 0" and "m \<noteq> 0" and "\<bar>p * m\<bar> \<le> 2 ^ 53"
  shows "js_times strnum (JNum p) (JNum m) = JNum (p * m)"
proof -
  have pos: "0 < nat \<bar>p\<bar> * nat \<bar>m\<bar>" using assms(1,2) by simp
  have prod: "int (nat \<bar>p\<bar> * nat \<bar>m\<bar>) = \<bar>p * m\<bar>" by (simp add: abs_mult)
  have "int (nat \<bar>p\<bar> * nat \<bar>m\<bar>) \<le> int (2 ^ 53)"
    unfolding prod using assms(3) by simp
  then have le: "nat \<bar>p\<bar> * nat \<bar>m\<bar> \<le> 2 ^ 53"
    by (simp only: of_nat_le_iff)
  have sign: "with_sign ((p < 0) \<noteq> (m < 0)) (nat \<bar>p\<bar> * nat \<bar>m\<bar>) = p * m"
    using assms(1,2) by (rule with_sign_product)
  have "js_times strnum (JNum p) (JNum m)
          = to_double ((p < 0) \<noteq> (m < 0)) (nat \<bar>p\<bar> * nat \<bar>m\<bar>) 1"
    by (simp add: js_times_def times_numbers_def)
  also have "\<dots> = JNum (with_sign ((p < 0) \<noteq> (m < 0)) (nat \<bar>p\<bar> * nat \<bar>m\<bar>))"
    using pos le by (rule to_double_integer)
  also have "\<dots> = JNum (p * m)"
    by (simp only: sign)
  finally show ?thesis .
qed






section \<open>Facts about POSIX paths\<close>

lemma split_on_not_Nil: "split_on c s \<noteq> []"
  by (induction s) (auto split: list.splits)

lemma split_on_append: "split_on c (xs @ c # ys) = split_on c xs @ split_on c ys"
proof (induction xs)
  case Nil
  show ?case by simp
next
  case (Cons x xs)
  then show ?case
    using split_on_not_Nil [of c xs] by (cases "split_on c xs") auto
qed

lemma split_on_free: "c \<notin> set s \<Longrightarrow> split_on c s = [s]"
  by (induction s) auto

lemma split_on_segments: "seg \<in> set (split_on c s) \<Longrightarrow> c \<notin> set seg"
proof (induction s arbitrary: seg)
  case Nil
  then show ?case by simp
next
  case (Cons x xs)
  then show ?case
    using split_on_not_Nil [of c xs]
    by (cases "split_on c xs") (auto split: if_splits)
qed

lemma split_on_join:
  "segs \<noteq> [] \<Longrightarrow> \<forall>seg \<in> set segs. c \<notin> set seg \<Longrightarrow>
   split_on c (join_with [c] segs) = segs"
proof (induction segs)
  case Nil
  then show ?case by simp
next
  case (Cons x xs)
  show ?case
  proof (cases xs)
    case Nil
    with Cons.prems show ?thesis by (simp add: split_on_free)
  next
    case (Cons y ys)
    with Cons.IH Cons.prems have "split_on c (join_with [c] xs) = xs" by simp
    with Cons Cons.prems show ?thesis
      using split_on_append [of c x "join_with [c] (y # ys)"] by (simp add: split_on_free)
  qed
qed

lemma join_with_append:
  "xs \<noteq> [] \<Longrightarrow> ys \<noteq> [] \<Longrightarrow> join_with sep (xs @ ys) = join_with sep xs @ sep @ join_with sep ys"
  by (induction sep xs rule: join_with.induct) (auto simp: neq_Nil_conv)

lemma join_with_Nil_iff:
  "\<forall>seg \<in> set segs. seg \<noteq> [] \<Longrightarrow> join_with sep segs = [] \<longleftrightarrow> segs = []"
  by (induction sep segs rule: join_with.induct) auto

lemma join_with_last:
  "segs \<noteq> [] \<Longrightarrow> last segs \<noteq> [] \<Longrightarrow>
   join_with sep segs \<noteq> [] \<and> last (join_with sep segs) = last (last segs)"
proof (induction segs)
  case Nil
  then show ?case by simp
next
  case (Cons x xs)
  show ?case
  proof (cases xs)
    case Nil
    with Cons.prems show ?thesis by simp
  next
    case (Cons y ys)
    with Cons.IH Cons.prems
    have "join_with sep xs \<noteq> [] \<and> last (join_with sep xs) = last (last xs)" by simp
    with Cons show ?thesis by simp
  qed
qed

lemma str_includes_Nil: "str_includes s []"
  by (cases s) simp_all

lemma str_includes_prefix: "str_includes (sub @ rest) sub"
  by (cases sub) (simp_all add: str_includes_Nil)

lemma str_includes_append_left: "str_includes (pre @ s) sub" if "str_includes s sub"
  using that by (induction pre) auto

lemma take_whole: "take (length sub) s = sub \<Longrightarrow> take (length sub) (s @ post) = sub"
proof -
  assume t: "take (length sub) s = sub"
  then have "length (take (length sub) s) = length sub" by simp
  then have "length sub \<le> length s" by simp
  with t show ?thesis by simp
qed

lemma str_includes_append_right: "str_includes s sub \<Longrightarrow> str_includes (s @ post) sub"
proof (induction s)
  case Nil
  then show ?case by (simp add: str_includes_Nil)
next
  case (Cons x xs)
  then show ?case
    using take_whole [of sub "x # xs" post] by auto
qed

lemma str_includes_join:
  "seg \<in> set segs \<Longrightarrow> str_includes (join_with sep segs) seg"
proof (induction sep segs rule: join_with.induct)
  case (1 sep)
  then show ?case by simp
next
  case (2 sep x)
  then show ?case using str_includes_prefix [of x "[]"] by simp
next
  case (3 sep x y ys)
  show ?case
  proof (cases "seg = x")
    case True
    then show ?thesis using str_includes_prefix [of x "sep @ join_with sep (y # ys)"] by simp
  next
    case False
    with 3 have "str_includes (join_with sep (y # ys)) seg" by simp
    then show ?thesis
      using str_includes_append_left [of "join_with sep (y # ys)" seg "x @ sep"] by simp
  qed
qed
lemma normalize_step_plain: "plain_segment seg \<Longrightarrow> normalize_step a res seg = res @ [seg]"
  by (simp add: normalize_step_def plain_segment_def)

lemma foldl_normalize_plain:
  "\<forall>s \<in> set ys. plain_segment s \<Longrightarrow> foldl (normalize_step a) st ys = st @ ys"
  by (induction ys arbitrary: st) (simp_all add: normalize_step_plain)

lemma normalize_step_proper:
  assumes "\<forall>s \<in> set st. s \<noteq> [] \<and> s \<noteq> ''.'' \<and> CHR ''/'' \<notin> set s"
    and "CHR ''/'' \<notin> set seg"
  shows "\<forall>s \<in> set (normalize_step a st seg). s \<noteq> [] \<and> s \<noteq> ''.'' \<and> CHR ''/'' \<notin> set s"
proof (cases "seg = [] \<or> seg = ''.''")
  case True
  then show ?thesis using assms by (auto simp add: normalize_step_def)
next
  case False
  show ?thesis
  proof (cases "seg = ''..''")
    case True
    have "set (butlast st) \<subseteq> set st" by (auto dest: in_set_butlastD)
    then have b: "\<forall>s \<in> set (butlast st). s \<noteq> [] \<and> s \<noteq> ''.'' \<and> CHR ''/'' \<notin> set s"
      using assms(1) by blast
    have u: "\<forall>s \<in> set (st @ [''..'']). s \<noteq> [] \<and> s \<noteq> ''.'' \<and> CHR ''/'' \<notin> set s"
      using assms(1) by simp
    show ?thesis
      unfolding normalize_step_def using True b u assms(1) by simp
  next
    case False
    with \<open>\<not> (seg = [] \<or> seg = ''.'')\<close> have "normalize_step a st seg = st @ [seg]"
      by (simp add: normalize_step_def)
    then show ?thesis using assms \<open>\<not> (seg = [] \<or> seg = ''.'')\<close> by simp
  qed
qed

lemma foldl_normalize_proper:
  assumes "\<forall>s \<in> set st. s \<noteq> [] \<and> s \<noteq> ''.'' \<and> CHR ''/'' \<notin> set s"
    and "\<forall>s \<in> set segs. CHR ''/'' \<notin> set s"
  shows "\<forall>s \<in> set (foldl (normalize_step a) st segs). s \<noteq> [] \<and> s \<noteq> ''.'' \<and> CHR ''/'' \<notin> set s"
  using assms
proof (induction segs arbitrary: st)
  case Nil
  then show ?case by simp
next
  case (Cons seg segs)
  have "\<forall>s \<in> set (normalize_step a st seg). s \<noteq> [] \<and> s \<noteq> ''.'' \<and> CHR ''/'' \<notin> set s"
    by (rule normalize_step_proper) (use Cons.prems in simp_all)
  with Cons.IH [of "normalize_step a st seg"] Cons.prems(2) show ?case by simp
qed

lemma normalize_segments_proper:
  "\<forall>s \<in> set (normalize_segments a (split_on CHR ''/'' path)).
     s \<noteq> [] \<and> s \<noteq> ''.'' \<and> CHR ''/'' \<notin> set s"
  unfolding normalize_segments_def
  by (rule foldl_normalize_proper) (auto dest: split_on_segments)

lemma normalize_relative:
  assumes "fp \<noteq> []" and "hd fp \<noteq> CHR ''/''"
  shows "path_normalize fp =
           (if normalize_segments True (split_on CHR ''/'' fp) = []
            then (if last fp = CHR ''/'' then ''./'' else ''.'')
            else join_with ''/'' (normalize_segments True (split_on CHR ''/'' fp))
                   @ (if last fp = CHR ''/'' then ''/'' else []))"
proof -
  have "join_with ''/'' (normalize_segments True (split_on CHR ''/'' fp)) = []
          \<longleftrightarrow> normalize_segments True (split_on CHR ''/'' fp) = []"
    by (rule join_with_Nil_iff) (use normalize_segments_proper in blast)
  with assms show ?thesis
    by (simp add: path_normalize_def normalizeString_def Let_def)
qed

lemma normalize_absolute:
  assumes "fp \<noteq> []" and "hd fp = CHR ''/''"
  shows "path_isAbsolute (path_normalize fp)"
  using assms by (simp add: path_normalize_def path_isAbsolute_def Let_def)

lemma valid_path_segments:
  assumes "fp \<noteq> []"
    and "\<not> str_includes (path_normalize fp) ''..''"
    and "\<not> path_isAbsolute (path_normalize fp)"
  shows "hd fp \<noteq> CHR ''/''"
    and "\<forall>s \<in> set (normalize_segments True (split_on CHR ''/'' fp)). plain_segment s"
proof -
  show rel: "hd fp \<noteq> CHR ''/''"
    using assms normalize_absolute by blast
  let ?segs = "normalize_segments True (split_on CHR ''/'' fp)"
  have "''..'' \<notin> set ?segs"
  proof
    assume up: "''..'' \<in> set ?segs"
    then have "?segs \<noteq> []" by auto
    then have "path_normalize fp =
                 join_with ''/'' ?segs @ (if last fp = CHR ''/'' then ''/'' else [])"
      using normalize_relative [OF assms(1) rel] by simp
    moreover have "str_includes (join_with ''/'' ?segs) ''..''"
      using up by (rule str_includes_join)
    ultimately have "str_includes (path_normalize fp) ''..''"
      by (simp add: str_includes_append_right)
    with assms(2) show False by simp
  qed
  with normalize_segments_proper [of True fp]
  show "\<forall>s \<in> set ?segs. plain_segment s"
    by (auto simp: plain_segment_def)
qed
lemma split_storage:
  "split_on CHR ''/'' ((if dir = [] then [] else dir @ ''/'') @ ''storage/'' @ n) =
     (if dir = [] then [] else split_on CHR ''/'' dir) @ [''storage''] @ split_on CHR ''/'' n"
  "split_on CHR ''/'' ((if dir = [] then [] else dir @ ''/'') @ ''storage'') =
     (if dir = [] then [] else split_on CHR ''/'' dir) @ [''storage'']"
proof -
  have s: "split_on CHR ''/'' ''storage'' = [''storage'']"
    by (rule split_on_free) simp
  have sn: "split_on CHR ''/'' (''storage/'' @ n) = [''storage''] @ split_on CHR ''/'' n"
    using split_on_append [of "CHR ''/''" "''storage''" n] s by simp
  show "split_on CHR ''/'' ((if dir = [] then [] else dir @ ''/'') @ ''storage/'' @ n) =
     (if dir = [] then [] else split_on CHR ''/'' dir) @ [''storage''] @ split_on CHR ''/'' n"
    using split_on_append [of "CHR ''/''" dir "''storage/'' @ n"] sn by simp
  show "split_on CHR ''/'' ((if dir = [] then [] else dir @ ''/'') @ ''storage'') =
     (if dir = [] then [] else split_on CHR ''/'' dir) @ [''storage'']"
    using split_on_append [of "CHR ''/''" dir "''storage''"] s by simp
qed

lemma normalize_after_storage:
  "normalize_segments a (X @ [''storage''] @ Y) =
     foldl (normalize_step a) (normalize_segments a X @ [''storage'']) Y"
  by (simp add: normalize_segments_def normalize_step_plain plain_segment_def)

lemma storage_segments_proper:
  "\<forall>s \<in> set (normalize_segments a (if dir = [] then [] else split_on CHR ''/'' dir) @ [''storage'']).
     s \<noteq> []"
proof (cases "dir = []")
  case True
  then show ?thesis by (simp add: normalize_segments_def)
next
  case False
  then show ?thesis using normalize_segments_proper [of a dir] by auto
qed

lemma foldl_normalize_down:
  "\<forall>s \<in> set ys. s \<noteq> ''..'' \<Longrightarrow>
   foldl (normalize_step a) st ys = st @ filter (\<lambda>s. s \<noteq> [] \<and> s \<noteq> ''.'') ys"
  by (induction ys arbitrary: st) (simp_all add: normalize_step_def)

text \<open>The path the handler resolves, for a directory \<open>dir\<close> and a path \<open>n\<close> that is not
  empty and has no segment \<open>..\<close>, in terms of the segments of the storage directory.\<close>

lemma resolve_in_storage:
  fixes dir n :: string
  defines "a \<equiv> dir \<noteq> [] \<and> hd dir = CHR ''/''"
  defines "B \<equiv> normalize_segments (\<not> a) (if dir = [] then [] else split_on CHR ''/'' dir)
                 @ [''storage'']"
  assumes n: "n \<noteq> []" and down: "\<forall>s \<in> set (split_on CHR ''/'' n). s \<noteq> ''..''"
  shows "path_join [dir, ''storage''] = (if a then ''/'' else []) @ join_with ''/'' B"
    and "path_join [dir, ''storage'', n] =
           (if a then ''/'' else [])
           @ join_with ''/'' (B @ filter (\<lambda>s. s \<noteq> [] \<and> s \<noteq> ''.'') (split_on CHR ''/'' n))
           @ (if last n = CHR ''/'' then ''/'' else [])"
proof -
  let ?pre = "if dir = [] then [] else dir @ ''/''"
  have Bp: "\<forall>s \<in> set B. s \<noteq> []"
    unfolding B_def by (rule storage_segments_proper)
  have B: "B \<noteq> []"
    by (simp add: B_def)
  have Bne: "join_with ''/'' B \<noteq> []"
    using join_with_Nil_iff [OF Bp, of "''/''"] B by simp
  have hd_base: "(hd (?pre @ ''storage'') = CHR ''/'') = a"
    by (cases dir) (simp_all add: a_def)
  have base_joined: "join_with ''/'' (filter (\<lambda>x. x \<noteq> []) [dir, ''storage'']) = ?pre @ ''storage''"
    by simp
  have base_segs: "normalize_segments (\<not> a) (split_on CHR ''/'' (?pre @ ''storage'')) = B"
    unfolding split_storage B_def
    using normalize_after_storage [where Y = "[]"] by simp
  have base_ne: "?pre @ ''storage'' \<noteq> []" by simp
  have base_last: "last (?pre @ ''storage'') \<noteq> CHR ''/''" by simp
  show "path_join [dir, ''storage''] = (if a then ''/'' else []) @ join_with ''/'' B"
    unfolding path_join_def base_joined Let_def path_normalize_def normalizeString_def
      hd_base base_segs
    using Bne base_ne base_last by simp
  let ?segs = "B @ filter (\<lambda>s. s \<noteq> [] \<and> s \<noteq> ''.'') (split_on CHR ''/'' n)"
  have full_segs: "normalize_segments (\<not> a) (split_on CHR ''/'' (?pre @ ''storage/'' @ n)) = ?segs"
    unfolding split_storage normalize_after_storage B_def [symmetric]
    using down by (rule foldl_normalize_down)
  have sp: "\<forall>s \<in> set ?segs. s \<noteq> []"
    using Bp by auto
  have sn: "?segs \<noteq> []"
    using B by simp
  have ne: "join_with ''/'' ?segs \<noteq> []"
    using join_with_Nil_iff [OF sp, of "''/''"] sn by simp
  have hd_full: "(hd (?pre @ ''storage/'' @ n) = CHR ''/'') = a"
    by (cases dir) (simp_all add: a_def)
  have last_full: "last (?pre @ ''storage/'' @ n) = last n"
    using n by simp
  have full_joined: "join_with ''/'' (filter (\<lambda>x. x \<noteq> []) [dir, ''storage'', n])
                       = ?pre @ ''storage/'' @ n"
    using n by simp
  have full_ne: "?pre @ ''storage/'' @ n \<noteq> []" by simp
  show "path_join [dir, ''storage'', n] =
           (if a then ''/'' else []) @ join_with ''/'' ?segs
           @ (if last n = CHR ''/'' then ''/'' else [])"
    unfolding path_join_def full_joined Let_def path_normalize_def normalizeString_def
      hd_full last_full full_segs
    using ne full_ne by simp
qed
lemma resolve_under_storage:
  assumes "n \<noteq> []" and "\<forall>s \<in> set (split_on CHR ''/'' n). s \<noteq> ''..''"
  shows "path_join [dir, ''storage'', n] =
           path_join [dir, ''storage'']
           @ (if filter (\<lambda>s. s \<noteq> [] \<and> s \<noteq> ''.'') (split_on CHR ''/'' n) = [] then []
              else ''/'' @ join_with ''/'' (filter (\<lambda>s. s \<noteq> [] \<and> s \<noteq> ''.'') (split_on CHR ''/'' n)))
           @ (if last n = CHR ''/'' then ''/'' else [])"
proof -
  let ?a = "dir \<noteq> [] \<and> hd dir = CHR ''/''"
  let ?B = "normalize_segments (\<not> ?a) (if dir = [] then [] else split_on CHR ''/'' dir) @ [''storage'']"
  let ?F = "filter (\<lambda>s. s \<noteq> [] \<and> s \<noteq> ''.'') (split_on CHR ''/'' n)"
  have base: "path_join [dir, ''storage''] = (if ?a then ''/'' else []) @ join_with ''/'' ?B"
    using assms by (rule resolve_in_storage(1))
  have full: "path_join [dir, ''storage'', n] =
           (if ?a then ''/'' else []) @ join_with ''/'' (?B @ ?F)
           @ (if last n = CHR ''/'' then ''/'' else [])"
    using assms by (rule resolve_in_storage(2))
  have B: "?B \<noteq> []" by simp
  show ?thesis
  proof (cases "?F = []")
    case True
    then show ?thesis unfolding full base by simp
  next
    case False
    have "join_with ''/'' (?B @ ?F) = join_with ''/'' ?B @ ''/'' @ join_with ''/'' ?F"
      using B False by (rule join_with_append)
    then show ?thesis unfolding full base using False by simp
  qed
qed

text \<open>Where a validated path resolves: at the storage directory itself when the
  normalized path is \<open>.\<close> or \<open>./\<close>, and otherwise below it, along one or more plain
  segments.\<close>

lemma valid_path_resolves:
  assumes fp: "fp \<noteq> []"
    and nodots: "\<not> str_includes (path_normalize fp) ''..''"
    and relative: "\<not> path_isAbsolute (path_normalize fp)"
  shows "path_join [dir, ''storage'', path_normalize fp]
           \<in> {path_join [dir, ''storage''], path_join [dir, ''storage''] @ ''/''}
       \<or> (\<exists>segs. segs \<noteq> [] \<and> (\<forall>s \<in> set segs. plain_segment s)
             \<and> path_join [dir, ''storage'', path_normalize fp]
                 \<in> {path_join [dir, ''storage''] @ ''/'' @ join_with ''/'' segs,
                    path_join [dir, ''storage''] @ ''/'' @ join_with ''/'' segs @ ''/''})"
proof -
  let ?N = "normalize_segments True (split_on CHR ''/'' fp)"
  let ?n = "path_normalize fp"
  have rel: "hd fp \<noteq> CHR ''/''" and plain: "\<forall>s \<in> set ?N. plain_segment s"
    using valid_path_segments [OF fp nodots relative] by blast+
  have n: "?n = (if ?N = [] then (if last fp = CHR ''/'' then ''./'' else ''.'')
                 else join_with ''/'' ?N @ (if last fp = CHR ''/'' then ''/'' else []))"
    using fp rel by (rule normalize_relative)
  show ?thesis
  proof (cases "?N = []")
    case True
    with n have cases: "?n = ''./'' \<or> ?n = ''.''" by simp
    then have ne: "?n \<noteq> []" by auto
    have s: "split_on CHR ''/'' ?n = [''.'', []] \<or> split_on CHR ''/'' ?n = [''.'']"
      using cases by auto
    then have down: "\<forall>s \<in> set (split_on CHR ''/'' ?n). s \<noteq> ''..''" by auto
    have F: "filter (\<lambda>s. s \<noteq> [] \<and> s \<noteq> ''.'') (split_on CHR ''/'' ?n) = []"
      using s by auto
    show ?thesis
      using resolve_under_storage [OF ne down, of dir] F by simp
  next
    case False
    have slash_free: "\<forall>s \<in> set ?N. CHR ''/'' \<notin> set s"
      using plain by (simp add: plain_segment_def)
    have last_plain: "last ?N \<noteq> []" "CHR ''/'' \<notin> set (last ?N)"
      using plain False last_in_set [of ?N] by (auto simp: plain_segment_def)
    have J: "join_with ''/'' ?N \<noteq> []" "last (join_with ''/'' ?N) = last (last ?N)"
      using join_with_last [OF False last_plain(1), of "''/''"] by simp_all
    have "last (last ?N) \<in> set (last ?N)"
      using last_plain(1) by (rule last_in_set)
    then have Jlast: "last (join_with ''/'' ?N) \<noteq> CHR ''/''"
      using J(2) last_plain(2) by auto
    have SJ: "split_on CHR ''/'' (join_with ''/'' ?N) = ?N"
      using split_on_join [OF False slash_free] by simp
    have keep: "filter (\<lambda>s. s \<noteq> [] \<and> s \<noteq> ''.'') ?N = ?N"
      using plain by (simp add: plain_segment_def filter_id_conv)
    have N_down: "\<forall>s \<in> set ?N. s \<noteq> ''..''"
      using plain by (simp add: plain_segment_def)
    show ?thesis
    proof (cases "last fp = CHR ''/''")
      case True
      with n False have eq: "?n = join_with ''/'' ?N @ ''/''" by simp
      have ne: "?n \<noteq> []" unfolding eq by simp
      have S: "split_on CHR ''/'' ?n = ?N @ [[]]"
        unfolding eq using split_on_append [of "CHR ''/''" "join_with ''/'' ?N" "[]"] SJ by simp
      have down: "\<forall>s \<in> set (split_on CHR ''/'' ?n). s \<noteq> ''..''"
        unfolding S using N_down by simp
      have F: "filter (\<lambda>s. s \<noteq> [] \<and> s \<noteq> ''.'') (split_on CHR ''/'' ?n) = ?N"
        unfolding S using keep by simp
      have l: "last ?n = CHR ''/''" unfolding eq by simp
      have "path_join [dir, ''storage'', ?n]
              = path_join [dir, ''storage''] @ ''/'' @ join_with ''/'' ?N @ ''/''"
        using resolve_under_storage [OF ne down, of dir] False
        unfolding F l by simp
      with False plain show ?thesis by blast
    next
      case notrail: False
      with n False have eq: "?n = join_with ''/'' ?N" by simp
      have ne: "?n \<noteq> []" unfolding eq using J(1) .
      have S: "split_on CHR ''/'' ?n = ?N"
        unfolding eq by (rule SJ)
      have down: "\<forall>s \<in> set (split_on CHR ''/'' ?n). s \<noteq> ''..''"
        unfolding S using N_down .
      have F: "filter (\<lambda>s. s \<noteq> [] \<and> s \<noteq> ''.'') (split_on CHR ''/'' ?n) = ?N"
        unfolding S by (rule keep)
      have l: "last ?n \<noteq> CHR ''/''" unfolding eq by (rule Jlast)
      have "path_join [dir, ''storage'', ?n]
              = path_join [dir, ''storage''] @ ''/'' @ join_with ''/'' ?N"
        using resolve_under_storage [OF ne down, of dir] False l
        unfolding F by simp
      with False plain show ?thesis by blast
    qed
  qed
qed
section \<open>The path check of downloads\<close>

lemma download_served:
  assumes "file_status (fst (download_GET e slug ops)) = 200"
  shows "\<exists>user kvs fp.
           getUser e = Inr user \<and> product_data e slug = Inr (JObj kvs)
         \<and> map_of kvs ''file_path'' = Some (JStr fp) \<and> fp \<noteq> []
         \<and> userHasProductAccess e user (js_get_opt (JObj kvs) ''id'') = Inr True
         \<and> \<not> str_includes (path_normalize fp) ''..''
         \<and> \<not> path_isAbsolute (path_normalize fp)"
proof (cases "getUser e")
  case (Inl err)
  with assms show ?thesis
    by (simp add: download_GET_def download_try_def plain_response_def)
next
  case user: (Inr user)
  show ?thesis
  proof (cases "product_data e slug")
    case (Inl err)
    with assms user show ?thesis
      by (simp add: download_GET_def download_try_def plain_response_def)
  next
    case data: (Inr data)
    show ?thesis
    proof (cases "\<exists>kvs fp. data = JObj kvs \<and> map_of kvs ''file_path'' = Some (JStr fp) \<and> fp \<noteq> []")
      case False
      with assms user data have False
        by (auto simp: download_GET_def download_try_def plain_response_def
              split: jsval.splits option.splits sum.splits if_splits)
      then show ?thesis ..
    next
      case True
      then obtain kvs fp where d: "data = JObj kvs"
        and f: "map_of kvs ''file_path'' = Some (JStr fp)" and ne: "fp \<noteq> []"
        by blast
      from assms user data d f ne
      have "userHasProductAccess e user (js_get_opt (JObj kvs) ''id'') = Inr True
            \<and> \<not> str_includes (path_normalize fp) ''..''
            \<and> \<not> path_isAbsolute (path_normalize fp)"
        by (auto simp: download_GET_def download_try_def plain_response_def Let_def
              split: sum.splits if_splits)
      with user data d f ne show ?thesis by blast
    qed
  qed
qed

lemma serve_file_served:
  assumes "file_status (fst (serve_file e p ops)) = 200"
  shows "fs_readFile e p = Inr (file_body (fst (serve_file e p ops)))
       \<and> snd (serve_file e p ops) = ops @ [Stat p, ReadFile p]"
  using assms
  by (auto simp: serve_file_def plain_response_def Let_def split: sum.splits if_splits)

lemma download_invalid_path:
  assumes "product_data e slug = Inr (JObj kvs)"
    and "map_of kvs ''file_path'' = Some (JStr fp)"
    and "str_includes (path_normalize fp) ''..'' \<or> path_isAbsolute (path_normalize fp)"
  shows "snd (download_GET e slug ops) = ops"
    and "getUser e = Inr user \<Longrightarrow>
         userHasProductAccess e user (js_get_opt (JObj kvs) ''id'') = Inr True \<Longrightarrow>
         fst (download_GET e slug ops) =
           \<lparr>file_status = 400, file_body = ''Invalid file path'', file_headers = []\<rparr>"
proof -
  have ne: "fp \<noteq> []"
    using assms(3) by (auto simp: path_normalize_def path_isAbsolute_def)
  show "snd (download_GET e slug ops) = ops"
    using assms ne
    by (auto simp: download_GET_def download_try_def Let_def split: sum.splits)
  show "fst (download_GET e slug ops) =
           \<lparr>file_status = 400, file_body = ''Invalid file path'', file_headers = []\<rparr>"
    if "getUser e = Inr user"
      and "userHasProductAccess e user (js_get_opt (JObj kvs) ''id'') = Inr True"
    using assms ne that
    by (auto simp: download_GET_def download_try_def Let_def plain_response_def)
qed
text \<open>
  C8, as amended. For every product row whose \<open>file_path\<close>, once normalized, contains
  \<open>..\<close> or is absolute, the handler makes no file-system call, whoever asks; and it
  answers 400 when the request gets as far as the path check, that is when the user is
  found and has access to the product (without access the answer is 403, given before
  the path is looked at). Every file it serves, the storage path itself not being a
  readable file, is the one it has read at a path made of the storage directory of the
  working directory followed by one or more segments, none of them empty, \<open>.\<close> or
  \<open>..\<close>.
\<close>

theorem download_path_guard:
  "(product_data e slug = Inr (JObj kvs) \<and> map_of kvs ''file_path'' = Some (JStr fp)
      \<and> (str_includes (path_normalize fp) ''..'' \<or> path_isAbsolute (path_normalize fp)) \<longrightarrow>
      snd (download_GET e slug ops) = ops
    \<and> (\<forall>user. getUser e = Inr user
           \<and> userHasProductAccess e user (js_get_opt (JObj kvs) ''id'') = Inr True \<longrightarrow>
         fst (download_GET e slug ops) =
           \<lparr>file_status = 400, file_body = ''Invalid file path'', file_headers = []\<rparr>))
   \<and> (file_status (fst (download_GET e slug ops)) = 200
      \<and> (\<forall>d. fs_readFile e (path_join [cwd e, ''storage'']) \<noteq> Inr d)
      \<and> (\<forall>d. fs_readFile e (path_join [cwd e, ''storage''] @ ''/'') \<noteq> Inr d) \<longrightarrow>
      (\<exists>segs p. segs \<noteq> [] \<and> (\<forall>s \<in> set segs. plain_segment s)
         \<and> p \<in> {path_join [cwd e, ''storage''] @ ''/'' @ join_with ''/'' segs,
                 path_join [cwd e, ''storage''] @ ''/'' @ join_with ''/'' segs @ ''/''}
         \<and> snd (download_GET e slug ops) = ops @ [Stat p, ReadFile p]
         \<and> fs_readFile e p = Inr (file_body (fst (download_GET e slug ops)))))"
proof (intro conjI impI)
  assume bad: "product_data e slug = Inr (JObj kvs) \<and> map_of kvs ''file_path'' = Some (JStr fp)
      \<and> (str_includes (path_normalize fp) ''..'' \<or> path_isAbsolute (path_normalize fp))"
  then show "snd (download_GET e slug ops) = ops"
    using download_invalid_path(1) by blast
  from bad show "\<forall>user. getUser e = Inr user
           \<and> userHasProductAccess e user (js_get_opt (JObj kvs) ''id'') = Inr True \<longrightarrow>
         fst (download_GET e slug ops) =
           \<lparr>file_status = 400, file_body = ''Invalid file path'', file_headers = []\<rparr>"
    using download_invalid_path(2) by blast
next
  assume served: "file_status (fst (download_GET e slug ops)) = 200
      \<and> (\<forall>d. fs_readFile e (path_join [cwd e, ''storage'']) \<noteq> Inr d)
      \<and> (\<forall>d. fs_readFile e (path_join [cwd e, ''storage''] @ ''/'') \<noteq> Inr d)"
  then obtain user kvs' fp' where u: "getUser e = Inr user"
    and d: "product_data e slug = Inr (JObj kvs')"
    and f: "map_of kvs' ''file_path'' = Some (JStr fp')" and ne: "fp' \<noteq> []"
    and acc: "userHasProductAccess e user (js_get_opt (JObj kvs') ''id'') = Inr True"
    and nodots: "\<not> str_includes (path_normalize fp') ''..''"
    and rel: "\<not> path_isAbsolute (path_normalize fp')"
    using download_served [of e slug ops] by blast
  let ?p = "path_join [cwd e, ''storage'', path_normalize fp']"
  have run: "download_GET e slug ops = serve_file e ?p ops"
    using u d f ne acc nodots rel by (rule download_reaches_file)
  with served have "file_status (fst (serve_file e ?p ops)) = 200" by simp
  then have read: "fs_readFile e ?p = Inr (file_body (fst (download_GET e slug ops)))"
    and log: "snd (download_GET e slug ops) = ops @ [Stat ?p, ReadFile ?p]"
    using serve_file_served [of e ?p ops] run by simp_all
  from read served have "?p \<noteq> path_join [cwd e, ''storage'']"
    and "?p \<noteq> path_join [cwd e, ''storage''] @ ''/''"
    by metis+
  with valid_path_resolves [OF ne nodots rel, of "cwd e"]
  obtain segs where "segs \<noteq> []" and "\<forall>s \<in> set segs. plain_segment s"
    and "?p \<in> {path_join [cwd e, ''storage''] @ ''/'' @ join_with ''/'' segs,
                path_join [cwd e, ''storage''] @ ''/'' @ join_with ''/'' segs @ ''/''}"
    by auto
  with read log
  show "\<exists>segs p. segs \<noteq> [] \<and> (\<forall>s \<in> set segs. plain_segment s)
         \<and> p \<in> {path_join [cwd e, ''storage''] @ ''/'' @ join_with ''/'' segs,
                 path_join [cwd e, ''storage''] @ ''/'' @ join_with ''/'' segs @ ''/''}
         \<and> snd (download_GET e slug ops) = ops @ [Stat p, ReadFile p]
         \<and> fs_readFile e p = Inr (file_body (fst (download_GET e slug ops)))"
    by blast
qed
lemma normalize_secret: "path_normalize ''../secret.pdf'' = ''../secret.pdf''"
  by code_simp

lemma includes_secret: "str_includes ''../secret.pdf'' ''..''"
  by code_simp

lemma normalize_book: "path_normalize ''books/a.pdf'' = ''books/a.pdf''"
  by code_simp

lemma book_valid: "\<not> str_includes ''books/a.pdf'' ''..'' \<and> \<not> path_isAbsolute ''books/a.pdf''"
  by code_simp

lemma join_storage: "path_join [''/srv/app'', ''storage''] = ''/srv/app/storage''"
  by code_simp

lemma join_book:
  "path_join [''/srv/app'', ''storage'', ''books/a.pdf''] = ''/srv/app/storage/books/a.pdf''"
  by code_simp

text \<open>The amended C8 at a row whose path climbs out of the storage directory, asked for
  by a user with access, and at a row with a path below it.\<close>

theorem download_path_guard_witness:
  "download_GET
     \<lparr>getUser = Inr (Some ''u1''),
      product_data = (\<lambda>slug. Inr (JObj [(''id'', JStr ''p1''), (''title'', JStr ''Secret''),
                                          (''file_path'', JStr ''../secret.pdf'')])),
      userHasProductAccess = (\<lambda>u p. Inr True),
      cwd = ''/srv/app'',
      fs_stat = (\<lambda>p. Inr 10),
      fs_readFile = (\<lambda>p. Inr ''contents'')\<rparr> ''secret'' []
   = (\<lparr>file_status = 400, file_body = ''Invalid file path'', file_headers = []\<rparr>, [])
   \<and> (\<exists>segs p. segs \<noteq> [] \<and> list_all plain_segment segs
         \<and> p \<in> {''/srv/app/storage/'' @ join_with ''/'' segs,
                 ''/srv/app/storage/'' @ join_with ''/'' segs @ ''/''}
         \<and> snd (download_GET
               \<lparr>getUser = Inr (Some ''u1''),
                product_data = (\<lambda>slug. Inr (JObj [(''id'', JStr ''p2''), (''title'', JStr ''Book''),
                                                    (''file_path'', JStr ''books/a.pdf'')])),
                userHasProductAccess = (\<lambda>u p. Inr True),
                cwd = ''/srv/app'',
                fs_stat = (\<lambda>p. Inr 8),
                fs_readFile = (\<lambda>p. if p = ''/srv/app/storage/books/a.pdf''
                                      then Inr ''%PDF-1.7'' else Inl (Error ''EISDIR''))\<rparr>
               ''book'' [])
             = [Stat p, ReadFile p])"
proof -
  let ?bad = "\<lparr>getUser = Inr (Some ''u1''),
      product_data = (\<lambda>slug. Inr (JObj [(''id'', JStr ''p1''), (''title'', JStr ''Secret''),
                                          (''file_path'', JStr ''../secret.pdf'')])),
      userHasProductAccess = (\<lambda>u p. Inr True),
      cwd = ''/srv/app'',
      fs_stat = (\<lambda>p. Inr 10),
      fs_readFile = (\<lambda>p. Inr ''contents'')\<rparr>"
  let ?good = "\<lparr>getUser = Inr (Some ''u1''),
                product_data = (\<lambda>slug. Inr (JObj [(''id'', JStr ''p2''), (''title'', JStr ''Book''),
                                                    (''file_path'', JStr ''books/a.pdf'')])),
                userHasProductAccess = (\<lambda>u p. Inr True),
                cwd = ''/srv/app'',
                fs_stat = (\<lambda>p. Inr 8),
                fs_readFile = (\<lambda>p. if p = ''/srv/app/storage/books/a.pdf''
                                      then Inr ''%PDF-1.7'' else Inl (Error ''EISDIR''))\<rparr>"
  have a: "download_GET ?bad ''secret'' []
           = (\<lparr>file_status = 400, file_body = ''Invalid file path'', file_headers = []\<rparr>, [])"
    using download_path_guard
      [of ?bad "''secret''"
          "[(''id'', JStr ''p1''), (''title'', JStr ''Secret''), (''file_path'', JStr ''../secret.pdf'')]"
          "''../secret.pdf''" "[]", THEN conjunct1]
    by (simp add: normalize_secret includes_secret prod_eq_iff)
  have served: "file_status (fst (download_GET ?good ''book'' [])) = 200"
    by (simp add: download_GET_def download_try_def serve_file_def MAX_FILE_SIZE_def
          normalize_book book_valid join_book Let_def)
  have b: "\<exists>segs p. segs \<noteq> [] \<and> (\<forall>s \<in> set segs. plain_segment s)
         \<and> p \<in> {path_join [cwd ?good, ''storage''] @ ''/'' @ join_with ''/'' segs,
                 path_join [cwd ?good, ''storage''] @ ''/'' @ join_with ''/'' segs @ ''/''}
         \<and> snd (download_GET ?good ''book'' []) = [] @ [Stat p, ReadFile p]
         \<and> fs_readFile ?good p = Inr (file_body (fst (download_GET ?good ''book'' [])))"
    using download_path_guard [of ?good "''book''" _ _ "[]", THEN conjunct2] served
    by (simp add: join_storage)
  from b have "\<exists>segs p. segs \<noteq> [] \<and> list_all plain_segment segs
         \<and> p \<in> {''/srv/app/storage/'' @ join_with ''/'' segs,
                 ''/srv/app/storage/'' @ join_with ''/'' segs @ ''/''}
         \<and> snd (download_GET ?good ''book'' []) = [Stat p, ReadFile p]"
    by (simp add: join_storage list_all_iff) blast
  with a show ?thesis by blast
qed

text \<open>C8 as stated fails: for a row whose path climbs out of the storage directory and a
  visitor without access, the handler answers 403, not 400.\<close>

theorem download_forbidden_first:
  "fst (download_GET
     \<lparr>getUser = Inr None,
      product_data = (\<lambda>slug. Inr (JObj [(''id'', JStr ''p1''), (''title'', JStr ''Secret''),
                                          (''file_path'', JStr ''../secret.pdf'')])),
      userHasProductAccess = (\<lambda>u p. Inr False),
      cwd = ''/srv/app'',
      fs_stat = (\<lambda>p. Inr 10),
      fs_readFile = (\<lambda>p. Inr ''contents'')\<rparr> ''secret'' [])
   = \<lparr>file_status = 403, file_body = ''Forbidden'', file_headers = []\<rparr>
   \<and> str_includes (path_normalize ''../secret.pdf'') ''..''"
  by (simp add: download_GET_def download_try_def plain_response_def normalize_secret
        includes_secret)


end
